theory Spec2Isabelle
  imports Main
begin

section \<open>Strings\<close>

text \<open>
  A JavaScript string is modelled as an Isabelle \<open>string\<close>, one \<open>char\<close> per code unit.
  Isabelle characters have eight bits, so the model covers the code units 0 to 255; the
  case mappings below act on the ASCII letters and leave every other character as it is
  (for the code units from 128 on, JavaScript's own mappings are not modelled).
\<close>

definition asciiUpper :: string where
  "asciiUpper = ''ABCDEFGHIJKLMNOPQRSTUVWXYZ''"

definition asciiLower :: string where
  "asciiLower = ''abcdefghijklmnopqrstuvwxyz''"

definition toLowerChar :: "char \<Rightarrow> char" where
  "toLowerChar c = (case map_of (zip asciiUpper asciiLower) c of Some d \<Rightarrow> d | None \<Rightarrow> c)"

definition toUpperChar :: "char \<Rightarrow> char" where
  "toUpperChar c = (case map_of (zip asciiLower asciiUpper) c of Some d \<Rightarrow> d | None \<Rightarrow> c)"

text \<open>The code units below 128, on which these mappings are JavaScript's own.\<close>

definition isAscii :: "char \<Rightarrow> bool" where
  "isAscii c = (of_char c < (128 :: nat))"

definition toLowerCase :: "string \<Rightarrow> string" where
  "toLowerCase s = map toLowerChar s"

definition toUpperCase :: "string \<Rightarrow> string" where
  "toUpperCase s = map toUpperChar s"

text \<open>\<open>s.startsWith(p)\<close> and \<open>s.includes(sub)\<close> (\<open>str_includes\<close>).\<close>

fun startsWith :: "string \<Rightarrow> string \<Rightarrow> bool" where
  "startsWith s [] = True"
| "startsWith [] (p # ps) = False"
| "startsWith (c # cs) (p # ps) = (c = p \<and> startsWith cs ps)"

fun str_includes :: "string \<Rightarrow> string \<Rightarrow> bool" where
  "str_includes [] sub = (sub = [])"
| "str_includes (c # cs) sub = (startsWith (c # cs) sub \<or> str_includes cs sub)"

text \<open>
  The white space of \<open>\s\<close> and of \<open>trim()\<close> among the first 256 code units: tab, line feed,
  vertical tab, form feed, carriage return, space and the no-break space.
\<close>

definition isSpace :: "char \<Rightarrow> bool" where
  "isSpace c = (c \<in> set [CHR 0x09, CHR 0x0A, CHR 0x0B, CHR 0x0C, CHR 0x0D, CHR 0x20, CHR 0xA0])"

definition trim :: "string \<Rightarrow> string" where
  "trim s = rev (dropWhile isSpace (rev (dropWhile isSpace s)))"

section \<open>Errors\<close>

text \<open>The closed set of error codes (\<open>D1ErrorCode\<close>) and the error classes of the driver.\<close>

datatype D1ErrorCode =
    D1_ERROR
  | SQLITE_CONSTRAINT_UNIQUE
  | SQLITE_CONSTRAINT_NOTNULL
  | SQLITE_CONSTRAINT_FOREIGNKEY
  | SQLITE_ERROR

datatype error_class = D1ConnectionError | D1ValidationError | D1QueryError | D1TransactionError

text \<open>
  A value that a remote call may throw, as far as the error handler looks at it:
  a primitive (only \<open>String(error)\<close> is read), or an object with
  \<^item> \<open>instanceOfError\<close>: whether \<open>error instanceof Error\<close>;
  \<^item> \<open>causeMessage\<close>: \<open>String(error.cause.message)\<close> when \<open>error.cause\<close> is an object with a
    \<open>message\<close> property;
  \<^item> \<open>ownMessage\<close>: \<open>String(error.message)\<close> when the object has a \<open>message\<close> property;
  \<^item> \<open>codeField\<close>: \<open>String(error.code)\<close> when the object has a \<open>code\<close> property;
  \<^item> \<open>rendered\<close>: \<open>String(error)\<close>.
\<close>

record js_object =
  instanceOfError :: bool
  causeMessage :: "string option"
  ownMessage :: "string option"
  codeField :: "string option"
  rendered :: string

datatype thrown = ThrownObject js_object | ThrownPrimitive string

text \<open>
  \<open>D1DriverError\<close> and its subclasses: the class, the message, the code, the offending
  query, the structured context (here with string values) and the upstream cause.
\<close>

record d1_error =
  errorClass :: error_class
  message :: string
  code :: D1ErrorCode
  errQuery :: "string option"
  errContext :: "(string \<times> string) list"
  cause :: "thrown option"

definition newD1ConnectionError :: "string \<Rightarrow> thrown option \<Rightarrow> d1_error" where
  "newD1ConnectionError msg c =
     \<lparr>errorClass = D1ConnectionError, message = msg, code = D1_ERROR, errQuery = None,
      errContext = [], cause = c\<rparr>"

definition newD1ValidationError :: "string \<Rightarrow> (string \<times> string) list \<Rightarrow> d1_error" where
  "newD1ValidationError msg ctx =
     \<lparr>errorClass = D1ValidationError, message = msg, code = D1_ERROR, errQuery = None,
      errContext = ctx, cause = None\<rparr>"

definition newD1QueryError ::
  "string \<Rightarrow> D1ErrorCode \<Rightarrow> string option \<Rightarrow> thrown option \<Rightarrow> d1_error" where
  "newD1QueryError msg cd q c =
     \<lparr>errorClass = D1QueryError, message = msg, code = cd, errQuery = q, errContext = [], cause = c\<rparr>"

definition newD1TransactionError :: "string \<Rightarrow> (string \<times> string) list \<Rightarrow> d1_error" where
  "newD1TransactionError msg ctx =
     \<lparr>errorClass = D1TransactionError, message = msg, code = D1_ERROR, errQuery = None,
      errContext = ctx, cause = None\<rparr>"

section \<open>The error handler\<close>

definition QUERY_PREVIEW_MAX_LENGTH :: nat where
  "QUERY_PREVIEW_MAX_LENGTH = 200"

definition mapErrorCode :: "string \<Rightarrow> D1ErrorCode \<Rightarrow> D1ErrorCode" where
  "mapErrorCode errorMessage defaultCode =
     (let lowerMessage = toLowerCase errorMessage in
      if str_includes lowerMessage ''unique constraint'' \<or> str_includes lowerMessage ''unique''
        then SQLITE_CONSTRAINT_UNIQUE
      else if str_includes lowerMessage ''not null constraint'' \<or> str_includes lowerMessage ''not null''
        then SQLITE_CONSTRAINT_NOTNULL
      else if str_includes lowerMessage ''foreign key constraint'' \<or> str_includes lowerMessage ''foreign key''
        then SQLITE_CONSTRAINT_FOREIGNKEY
      else if str_includes lowerMessage ''no such table'' \<or>
              str_includes lowerMessage ''already exists'' \<or>
              str_includes lowerMessage ''duplicate''
        then SQLITE_ERROR
      else defaultCode)"

text \<open>
  \<open>extractErrorMessage\<close>. An \<open>Error\<close> instance always has a \<open>message\<close> (the prototype's is
  the empty string), which is what \<open>None\<close> stands for in that branch.
\<close>

fun extractErrorMessage :: "thrown \<Rightarrow> string" where
  "extractErrorMessage (ThrownPrimitive s) = s"
| "extractErrorMessage (ThrownObject e) =
     (if instanceOfError e then
        (case causeMessage e of
           Some m \<Rightarrow> m
         | None \<Rightarrow> (case ownMessage e of Some m \<Rightarrow> m | None \<Rightarrow> []))
      else
        (case causeMessage e of
           Some m \<Rightarrow> m
         | None \<Rightarrow> (case ownMessage e of Some m \<Rightarrow> m | None \<Rightarrow> rendered e)))"

definition buildErrorMessage :: "string \<Rightarrow> string option \<Rightarrow> string" where
  "buildErrorMessage errorMessage q =
     ''D1 Error: '' @ errorMessage @
     (case q of
        None \<Rightarrow> []
      | Some qtext \<Rightarrow>
          if qtext = [] then []
          else [CHR 0x0A] @ ''Query: '' @
               (if length qtext > QUERY_PREVIEW_MAX_LENGTH
                then take QUERY_PREVIEW_MAX_LENGTH qtext @ ''...''
                else qtext))"

text \<open>The codes an embedded \<open>code\<close> field is compared with, as the strings of the source.\<close>

definition knownCodes :: "(string \<times> D1ErrorCode) list" where
  "knownCodes =
     [(''D1_ERROR'', D1_ERROR),
      (''SQLITE_CONSTRAINT_UNIQUE'', SQLITE_CONSTRAINT_UNIQUE),
      (''SQLITE_CONSTRAINT_NOTNULL'', SQLITE_CONSTRAINT_NOTNULL),
      (''SQLITE_CONSTRAINT_FOREIGNKEY'', SQLITE_CONSTRAINT_FOREIGNKEY),
      (''SQLITE_ERROR'', SQLITE_ERROR)]"

text \<open>The code that \<open>wrapD1Exception\<close> reads off the thrown value before classifying.\<close>

fun embeddedCode :: "thrown \<Rightarrow> D1ErrorCode" where
  "embeddedCode (ThrownPrimitive s) = D1_ERROR"
| "embeddedCode (ThrownObject e) =
     (case codeField e of
        None \<Rightarrow> D1_ERROR
      | Some c \<Rightarrow> (case map_of knownCodes c of Some k \<Rightarrow> k | None \<Rightarrow> D1_ERROR))"

fun isErrorInstance :: "thrown \<Rightarrow> bool" where
  "isErrorInstance (ThrownPrimitive s) = False"
| "isErrorInstance (ThrownObject e) = instanceOfError e"

definition wrapD1Exception :: "thrown \<Rightarrow> string option \<Rightarrow> d1_error" where
  "wrapD1Exception error q =
     (let errorMessage = extractErrorMessage error;
          errorCode = embeddedCode error;
          mappedCode = mapErrorCode errorMessage errorCode;
          fullMessage = buildErrorMessage errorMessage q
      in newD1QueryError fullMessage mappedCode q
           (if isErrorInstance error then Some error else None))"

section \<open>The query normalizer\<close>

text \<open>
  A match of the regular expression \<open>/^DROP INDEX\s+/i\<close> at the start of the query: the
  ten characters \<open>DROP INDEX\<close> in either case and then as much white space as there is,
  at least one character. The result is the text after the match.
\<close>

definition matchDropIndex :: "string \<Rightarrow> string option" where
  "matchDropIndex q =
     (if startsWith (toUpperCase q) ''DROP INDEX'' \<and>
         (case drop 10 q of [] \<Rightarrow> False | c # cs \<Rightarrow> isSpace c)
      then Some (dropWhile isSpace (drop 10 q))
      else None)"

definition normalizeQuery :: "string \<Rightarrow> string" where
  "normalizeQuery q =
     (if startsWith (toUpperCase (trim q)) ''DROP INDEX'' then
        if \<not> str_includes (toUpperCase q) ''IF EXISTS'' then
          (case matchDropIndex q of
             Some rest \<Rightarrow> ''DROP INDEX IF EXISTS '' @ rest
           | None \<Rightarrow> q)
        else q
      else q)"

record query_type =
  isSelect :: bool
  isInsert :: bool

definition determineQueryType :: "string \<Rightarrow> query_type" where
  "determineQueryType q =
     (let trimmedQuery = toUpperCase (trim q) in
      \<lparr>isSelect = startsWith trimmedQuery ''SELECT'' \<or>
                  startsWith trimmedQuery ''WITH'' \<or>
                  startsWith trimmedQuery ''PRAGMA'',
       isInsert = startsWith trimmedQuery ''INSERT''\<rparr>)"

section \<open>Values, results and the remote handle\<close>

text \<open>
  The JavaScript values that occur as bound parameters and as column defaults. A number is
  modelled by its exact decimal value: \<open>JInt n\<close> is the integral number \<open>n\<close>, and
  \<open>JFloat m d\<close> with \<open>d > 0\<close> and \<open>m\<close> not divisible by ten is the number \<open>m / 10^d\<close>
  (the shortest decimal that \<open>String\<close> prints for it). \<open>NaN\<close>, the infinities and binary
  rounding are outside the model. \<open>JObject s\<close> is any other value, \<open>s\<close> being what
  \<open>String\<close> makes of it.
\<close>

datatype jsval =
    JUndefined
  | JNull
  | JBool bool
  | JInt int
  | JFloat int nat
  | JStr string
  | JObject string

text \<open>
  An array of parameters. A JavaScript array may have holes, indices below its length that
  hold no element (as index 0 of \<open>[ , 1]\<close>): an element is \<open>Some v\<close> and a hole is \<open>None\<close>.
  \<open>xs.map(f)\<close> does not call \<open>f\<close> at a hole and leaves the hole in its result; the spread
  \<open>...xs\<close> of an array into the arguments of a call reads a hole as \<open>undefined\<close>.
\<close>

type_synonym js_array = "jsval option list"

definition arrayMap :: "(jsval \<Rightarrow> jsval) \<Rightarrow> js_array \<Rightarrow> js_array" where
  "arrayMap f xs = map (map_option f) xs"

definition spread :: "js_array \<Rightarrow> jsval list" where
  "spread xs = map (\<lambda>e. case e of Some v \<Rightarrow> v | None \<Rightarrow> JUndefined) xs"

type_synonym row = "(string \<times> jsval) list"

text \<open>
  The result envelope of the remote handle. An absent \<open>success\<close> is \<open>False\<close>; the three
  numbers are the fields of \<open>meta\<close>.
\<close>

record d1_result =
  success :: bool
  error :: "string option"
  results :: "row list option"
  last_row_id :: "nat option"
  rows_written :: "nat option"
  changes :: "nat option"

text \<open>
  The remote handle, as the query runner uses it: for a statement text, whether \<open>prepare\<close>
  throws; for the values given to \<open>bind\<close>, whether it throws; and what \<open>all()\<close> and \<open>run()\<close>
  answer for a statement and its bound values (\<open>None\<close> when \<open>bind\<close> was not called): a thrown
  value or a result envelope.
\<close>

record d1_database =
  prepareThrows :: "string \<Rightarrow> thrown option"
  bindThrows :: "string \<Rightarrow> jsval list \<Rightarrow> thrown option"
  allResponse :: "string \<Rightarrow> jsval list option \<Rightarrow> thrown + d1_result"
  runResponse :: "string \<Rightarrow> jsval list option \<Rightarrow> thrown + d1_result"

text \<open>The requests that reach the remote handle, in the order they are made.\<close>

datatype handle_call = Prepare string | Bind "jsval list" | CallAll | CallRun

text \<open>
  The driver, as far as the query runner reads it: the connection it holds, and the handle
  of its options when that passes \<open>D1Guards.isD1Database\<close> (otherwise
  \<open>createDatabaseConnection\<close> throws a validation error).
\<close>

record d1_driver =
  databaseConnection :: "d1_database option"
  optionsDatabase :: "d1_database option"

text \<open>
  The query runner: its driver, the transaction-tracking state, and the log of the requests
  it has made to the remote handle.
\<close>

record query_runner =
  driver :: "d1_driver option"
  isTransactionActive :: bool
  transactionStatements :: "string list"
  transactionBindings :: "js_array list"
  remoteCalls :: "handle_call list"

text \<open>What a call of the query runner ends with when it throws.\<close>

datatype failure = DriverError d1_error | Uncaught thrown

datatype raw_value = RawRows "row list" | RawId nat | RawUndefined

datatype query_result =
    Rows "row list"
  | Structured raw_value "row list" nat
  | InsertId nat
  | NoResult

section \<open>The query runner\<close>

definition newQueryRunner :: "d1_driver option \<Rightarrow> query_runner" where
  "newQueryRunner d =
     \<lparr>driver = d, isTransactionActive = False, transactionStatements = [],
      transactionBindings = [], remoteCalls = []\<rparr>"

text \<open>How the error handler sees a driver error that is thrown and caught again.\<close>

definition codeString :: "D1ErrorCode \<Rightarrow> string" where
  "codeString c =
     (case c of
        D1_ERROR \<Rightarrow> ''D1_ERROR''
      | SQLITE_CONSTRAINT_UNIQUE \<Rightarrow> ''SQLITE_CONSTRAINT_UNIQUE''
      | SQLITE_CONSTRAINT_NOTNULL \<Rightarrow> ''SQLITE_CONSTRAINT_NOTNULL''
      | SQLITE_CONSTRAINT_FOREIGNKEY \<Rightarrow> ''SQLITE_CONSTRAINT_FOREIGNKEY''
      | SQLITE_ERROR \<Rightarrow> ''SQLITE_ERROR'')"

definition className :: "error_class \<Rightarrow> string" where
  "className k =
     (case k of
        D1ConnectionError \<Rightarrow> ''D1ConnectionError''
      | D1ValidationError \<Rightarrow> ''D1ValidationError''
      | D1QueryError \<Rightarrow> ''D1QueryError''
      | D1TransactionError \<Rightarrow> ''D1TransactionError'')"

definition asThrown :: "d1_error \<Rightarrow> thrown" where
  "asThrown e =
     ThrownObject
       \<lparr>instanceOfError = True,
        causeMessage =
          (case cause e of
             Some (ThrownObject obj) \<Rightarrow> ownMessage obj
           | _ \<Rightarrow> None),
        ownMessage = Some (message e),
        codeField = Some (codeString (code e)),
        rendered = className (errorClass e) @ '': '' @ message e\<rparr>"

text \<open>
  \<open>connect\<close>: the guard on the driver, the connection the driver already holds, or else the
  driver's own \<open>connect\<close>, which stores what \<open>createDatabaseConnection\<close> returns. The
  context of the validation error behind a failed connect (the \<open>typeof\<close> of the rejected
  value) is left out.
\<close>

definition connect :: "query_runner \<Rightarrow> (failure + d1_database) \<times> query_runner" where
  "connect r =
     (case driver r of
        None \<Rightarrow> (Inl (DriverError (newD1ConnectionError ''Driver is not initialized'' None)), r)
      | Some d \<Rightarrow>
          (case databaseConnection d of
             Some db \<Rightarrow> (Inr db, r)
           | None \<Rightarrow>
               (case optionsDatabase d of
                  None \<Rightarrow>
                    (Inl (DriverError
                       (newD1ConnectionError ''Failed to connect to D1 database''
                          (Some (asThrown
                             (newD1ValidationError
                                (''Invalid D1 database instance. Expected D1Database with '' @
                                 ''prepare(), batch(), and exec() methods.'')
                                []))))), r)
                | Some db \<Rightarrow>
                    (Inr db, r\<lparr>driver := Some (d\<lparr>databaseConnection := Some db\<rparr>)\<rparr>))))"

definition checkD1Error :: "d1_result \<Rightarrow> string option \<Rightarrow> d1_error option" where
  "checkD1Error result q =
     (case error result of
        None \<Rightarrow> None
      | Some err \<Rightarrow>
          if \<not> success result \<and> err \<noteq> [] then
            Some (newD1QueryError (buildErrorMessage err q) (mapErrorCode err D1_ERROR) q None)
          else None)"

definition mapD1Result :: "d1_result \<Rightarrow> bool \<Rightarrow> query_result" where
  "mapD1Result result useStructuredResult =
     (let rows = (case results result of Some rs \<Rightarrow> rs | None \<Rightarrow> []) in
      if useStructuredResult then Structured (RawRows rows) rows 0 else Rows rows)"

text \<open>\<open>a || b\<close> on numbers that may be absent: the first that is there and not zero.\<close>

definition orElse :: "nat option \<Rightarrow> nat \<Rightarrow> nat" where
  "orElse a b = (case a of Some n \<Rightarrow> (if n = 0 then b else n) | None \<Rightarrow> b)"

definition mapD1RunResult :: "d1_result \<Rightarrow> bool \<Rightarrow> bool \<Rightarrow> query_result" where
  "mapD1RunResult result useStructuredResult isIns =
     (let lastRowId = orElse (last_row_id result) 0;
          affected = orElse (rows_written result) (orElse (changes result) 0)
      in if useStructuredResult then
           Structured (if isIns then RawId lastRowId else RawUndefined) [] affected
         else (if isIns then InsertId lastRowId else NoResult))"

definition logCall :: "handle_call \<Rightarrow> query_runner \<Rightarrow> query_runner" where
  "logCall c r = r\<lparr>remoteCalls := remoteCalls r @ [c]\<rparr>"

text \<open>
  The arguments that \<open>bind\<close> is called with: none when there is no parameter array or an
  empty one, otherwise the spread of \<open>normalizedParameters\<close>, the result of \<open>map\<close> over the
  parameters.
\<close>

definition boundParameters :: "js_array option \<Rightarrow> jsval list option" where
  "boundParameters parameters =
     (case parameters of
        None \<Rightarrow> None
      | Some ps \<Rightarrow>
          if length ps > 0
          then (let normalizedParameters =
                      arrayMap (\<lambda>p. if p = JUndefined then JNull else p) ps
                in Some (spread normalizedParameters))
          else None)"

text \<open>
  \<open>executeQuery\<close>. \<open>prepare\<close> and \<open>bind\<close> are called outside the \<open>try\<close>, so what they throw is
  not wrapped; what \<open>all()\<close>, \<open>run()\<close> and \<open>checkD1Error\<close> throw is caught and wrapped.
\<close>

definition executeQuery ::
  "d1_database \<Rightarrow> string \<Rightarrow> js_array option \<Rightarrow> bool \<Rightarrow> bool \<Rightarrow> bool \<Rightarrow> query_runner
     \<Rightarrow> (failure + query_result) \<times> query_runner" where
  "executeQuery database q parameters useStructuredResult isSel isIns r =
     (let r1 = logCall (Prepare q) r in
      case prepareThrows database q of
        Some t \<Rightarrow> (Inl (Uncaught t), r1)
      | None \<Rightarrow>
          (let bound = boundParameters parameters;
               r2 = (case bound of None \<Rightarrow> r1 | Some normalizedParameters \<Rightarrow>
                       logCall (Bind normalizedParameters) r1);
               bindFailure = (case bound of None \<Rightarrow> None | Some normalizedParameters \<Rightarrow>
                       bindThrows database q normalizedParameters)
           in case bindFailure of
                Some t \<Rightarrow> (Inl (Uncaught t), r2)
              | None \<Rightarrow>
                  (let r3 = logCall (if isSel then CallAll else CallRun) r2;
                       response = (if isSel then allResponse database q bound
                                   else runResponse database q bound)
                   in case response of
                        Inl t \<Rightarrow> (Inl (DriverError (wrapD1Exception t (Some q))), r3)
                      | Inr result \<Rightarrow>
                          (case checkD1Error result (Some q) of
                             Some e \<Rightarrow>
                               (Inl (DriverError (wrapD1Exception (asThrown e) (Some q))), r3)
                           | None \<Rightarrow>
                               (Inr (if isSel then mapD1Result result useStructuredResult
                                     else mapD1RunResult result useStructuredResult isIns),
                                r3)))))"

definition query ::
  "string \<Rightarrow> js_array option \<Rightarrow> bool \<Rightarrow> query_runner
     \<Rightarrow> (failure + query_result) \<times> query_runner" where
  "query q parameters useStructuredResult r =
     (case connect r of
        (Inl e, r1) \<Rightarrow> (Inl e, r1)
      | (Inr database, r1) \<Rightarrow>
          (let normalizedQuery = normalizeQuery q;
               queryType = determineQueryType normalizedQuery;
               r2 = (if isTransactionActive r1 then
                       r1\<lparr>transactionStatements := transactionStatements r1 @ [normalizedQuery],
                          transactionBindings := transactionBindings r1 @
                            [case parameters of Some ps \<Rightarrow> ps | None \<Rightarrow> []]\<rparr>
                     else r1)
           in executeQuery database normalizedQuery parameters useStructuredResult
                (isSelect queryType) (isInsert queryType) r2))"

definition release :: "query_runner \<Rightarrow> (failure + unit) \<times> query_runner" where
  "release r =
     (if isTransactionActive r then
        (Inr (), r\<lparr>isTransactionActive := False, transactionStatements := [],
                   transactionBindings := []\<rparr>)
      else (Inr (), r))"

definition startTransaction :: "query_runner \<Rightarrow> (failure + unit) \<times> query_runner" where
  "startTransaction r =
     (if isTransactionActive r then
        (Inl (DriverError
           (newD1TransactionError ''Cannot start transaction: a transaction is already active''
              [(''hint'', ''Commit or rollback the current transaction first'')])), r)
      else
        (Inr (), r\<lparr>isTransactionActive := True, transactionStatements := [],
                   transactionBindings := []\<rparr>))"

definition commitTransaction :: "query_runner \<Rightarrow> (failure + unit) \<times> query_runner" where
  "commitTransaction r =
     (if \<not> isTransactionActive r then
        (Inl (DriverError (newD1TransactionError ''No active transaction to commit'' [])), r)
      else
        (Inr (), r\<lparr>isTransactionActive := False, transactionStatements := [],
                   transactionBindings := []\<rparr>))"

definition rollbackTransaction :: "query_runner \<Rightarrow> (failure + unit) \<times> query_runner" where
  "rollbackTransaction r =
     (if \<not> isTransactionActive r then
        (Inl (DriverError (newD1TransactionError ''No active transaction to rollback'' [])), r)
      else
        (Inr (), r\<lparr>isTransactionActive := False, transactionStatements := [],
                   transactionBindings := []\<rparr>))"

section \<open>Table metadata and SQL generation\<close>

text \<open>
  The fields of \<open>TableColumn\<close> and \<open>Table\<close> that the query runner and the metadata parser
  read and write. An absent \<open>generationStrategy\<close> is \<open>None\<close>, an absent default is
  \<open>JUndefined\<close>.
\<close>

record table_column =
  name :: string
  type :: string
  isPrimary :: bool
  isUnique :: bool
  isNullable :: bool
  isGenerated :: bool
  generationStrategy :: "string option"
  defaultValue :: jsval

record table =
  tableName :: string
  columns :: "table_column list"

definition dq :: char where
  "dq = CHR 0x22"

definition sq :: char where
  "sq = CHR 0x27"

text \<open>\<open>xs.join(sep)\<close>.\<close>

fun join :: "string \<Rightarrow> string list \<Rightarrow> string" where
  "join sep [] = []"
| "join sep [x] = x"
| "join sep (x # y # ys) = x @ sep @ join sep (y # ys)"

definition escape :: "string \<Rightarrow> string" where
  "escape nm = [dq] @ concat (map (\<lambda>c. if c = dq then [dq, dq] else [c]) nm) @ [dq]"

text \<open>
  The type map of \<open>normalizeType\<close>, an object literal, as the list of its own entries. A
  type whose lower-case form names a property that every object inherits (\<open>constructor\<close>,
  \<open>toString\<close> and the like) is outside the model: there the lookup of the code finds the
  inherited property, and the lookup in the list finds nothing.
\<close>

definition typeMap :: "(string \<times> string) list" where
  "typeMap =
     [(''int'', ''INTEGER''), (''integer'', ''INTEGER''), (''bigint'', ''INTEGER''),
      (''smallint'', ''INTEGER''), (''tinyint'', ''INTEGER''),
      (''float'', ''REAL''), (''double'', ''REAL''), (''real'', ''REAL''),
      (''decimal'', ''REAL''), (''numeric'', ''REAL''),
      (''boolean'', ''INTEGER''), (''bool'', ''INTEGER''),
      (''text'', ''TEXT''), (''string'', ''TEXT''), (''varchar'', ''TEXT''), (''char'', ''TEXT''),
      (''blob'', ''BLOB''),
      (''date'', ''TEXT''), (''datetime'', ''TEXT''), (''timestamp'', ''TEXT''),
      (''time'', ''TEXT'')]"

definition normalizeType :: "table_column \<Rightarrow> string" where
  "normalizeType column =
     (case map_of typeMap (toLowerCase (type column)) of
        Some mappedType \<Rightarrow> mappedType
      | None \<Rightarrow> toUpperCase (type column))"

text \<open>
  \<open>String(n)\<close> for a number. The decimal digits of a natural number; then the text of an
  integral number, plain below \<open>10^21\<close> and in exponent notation from there on; then the text
  of a number with the digits \<open>s\<close> and the decimal point after the \<open>n\<close>-th of them.
\<close>

definition digitChar :: "nat \<Rightarrow> char" where
  "digitChar d = ''0123456789'' ! d"

fun showNat :: "nat \<Rightarrow> string" where
  "showNat n = (if n < 10 then [digitChar n] else showNat (n div 10) @ [digitChar (n mod 10)])"

declare showNat.simps [simp del]

definition stripTrailingZeros :: "string \<Rightarrow> string" where
  "stripTrailingZeros s = rev (dropWhile (\<lambda>c. c = CHR ''0'') (rev s))"

definition exponentForm :: "string \<Rightarrow> int \<Rightarrow> string" where
  "exponentForm s n =
     (let e = n - 1;
          es = (if e < 0 then ''-'' else ''+'') @ showNat (nat \<bar>e\<bar>)
      in if length s = 1 then s @ ''e'' @ es
         else [hd s] @ ''.'' @ tl s @ ''e'' @ es)"

definition decimalToString :: "string \<Rightarrow> int \<Rightarrow> string" where
  "decimalToString s n =
     (let k = int (length s) in
      if k \<le> n \<and> n \<le> 21 then s @ replicate (nat (n - k)) (CHR ''0'')
      else if 0 < n \<and> n \<le> 21 then take (nat n) s @ ''.'' @ drop (nat n) s
      else if -6 < n \<and> n \<le> 0 then ''0.'' @ replicate (nat (- n)) (CHR ''0'') @ s
      else exponentForm s n)"

definition numberToString :: "jsval \<Rightarrow> string" where
  "numberToString v =
     (case v of
        JInt n \<Rightarrow>
          (if n < 0 then ''-'' else []) @
          (if \<bar>n\<bar> < 10 ^ 21 then showNat (nat \<bar>n\<bar>)
           else exponentForm (stripTrailingZeros (showNat (nat \<bar>n\<bar>)))
                  (int (length (showNat (nat \<bar>n\<bar>)))))
      | JFloat m d \<Rightarrow>
          (if m < 0 then ''-'' else []) @
          decimalToString (showNat (nat \<bar>m\<bar>)) (int (length (showNat (nat \<bar>m\<bar>))) - int d)
      | _ \<Rightarrow> [])"

definition normalizeDefault :: "jsval \<Rightarrow> string" where
  "normalizeDefault v =
     (case v of
        JStr s \<Rightarrow> [sq] @ concat (map (\<lambda>c. if c = sq then [sq, sq] else [c]) s) @ [sq]
      | JInt n \<Rightarrow> numberToString (JInt n)
      | JFloat m d \<Rightarrow> numberToString (JFloat m d)
      | JBool b \<Rightarrow> (if b then ''1'' else ''0'')
      | JNull \<Rightarrow> ''NULL''
      | JUndefined \<Rightarrow> ''undefined''
      | JObject s \<Rightarrow> s)"

text \<open>A generation strategy is truthy when it is there and not the empty string.\<close>

definition hasGenerationStrategy :: "table_column \<Rightarrow> bool" where
  "hasGenerationStrategy column =
     (case generationStrategy column of None \<Rightarrow> False | Some g \<Rightarrow> g \<noteq> [])"

definition buildCreateColumnSql :: "table_column \<Rightarrow> bool \<Rightarrow> string" where
  "buildCreateColumnSql column isCompositePrimary =
     (let ty = normalizeType column;
          sql0 = escape (name column) @ '' '' @ ty;
          sql1 =
            (if isPrimary column \<and> isGenerated column \<and>
                generationStrategy column = Some ''increment'' \<and> \<not> isCompositePrimary
             then (if ty = ''INTEGER''
                   then escape (name column) @ '' INTEGER PRIMARY KEY AUTOINCREMENT''
                   else escape (name column) @ '' '' @ ty @ '' PRIMARY KEY'')
             else if isPrimary column \<and> \<not> hasGenerationStrategy column \<and> \<not> isCompositePrimary
             then sql0 @ '' PRIMARY KEY''
             else sql0);
          sql2 = (if isUnique column \<and> \<not> isPrimary column then sql1 @ '' UNIQUE'' else sql1);
          sql3 = (if \<not> isNullable column \<and> \<not> isPrimary column then sql2 @ '' NOT NULL'' else sql2)
      in if defaultValue column \<noteq> JNull \<and> defaultValue column \<noteq> JUndefined \<and>
            \<not> (isGenerated column \<and> generationStrategy column = Some ''increment'')
         then sql3 @ '' DEFAULT '' @ normalizeDefault (defaultValue column)
         else sql3)"

definition buildCreateTableSql :: "table \<Rightarrow> string" where
  "buildCreateTableSql tbl =
     (let primaryKeys = filter isPrimary (columns tbl);
          isCompositePrimary = length primaryKeys > 1;
          cols = join '', '' (map (\<lambda>col. buildCreateColumnSql col isCompositePrimary) (columns tbl));
          sql = ''CREATE TABLE IF NOT EXISTS '' @ escape (tableName tbl) @ '' ('' @ cols
      in (if isCompositePrimary
          then sql @ '', PRIMARY KEY ('' @
                 join '', '' (map (\<lambda>col. escape (name col)) primaryKeys) @ '')''
          else sql) @ '')'')"

section \<open>The metadata parser\<close>

text \<open>The character classes \<open>\d\<close> and \<open>\w\<close>, and the line terminators that \<open>.\<close> does not match.\<close>

definition isDigit :: "char \<Rightarrow> bool" where
  "isDigit c = (c \<in> set ''0123456789'')"

definition isWord :: "char \<Rightarrow> bool" where
  "isWord c = (c \<in> set (asciiUpper @ asciiLower @ ''0123456789_''))"















text \<open>
  \<open>parseDefaultValue\<close>. \<open>parseInt\<close> and \<open>parseFloat\<close> are only reached with texts of the two
  number patterns; they give the exact decimal value, an integral one as \<open>JInt\<close>.
\<close>

fun unescapeQuotes :: "string \<Rightarrow> string" where
  "unescapeQuotes (a # b # cs) =
     (if a = sq \<and> b = sq then sq # unescapeQuotes cs else a # unescapeQuotes (b # cs))"
| "unescapeQuotes cs = cs"

definition endsWith :: "string \<Rightarrow> string \<Rightarrow> bool" where
  "endsWith s p = startsWith (rev s) (rev p)"

definition digitValue :: "char \<Rightarrow> nat" where
  "digitValue c = of_char c - 48"

definition readNat :: "string \<Rightarrow> nat" where
  "readNat s = foldl (\<lambda>a c. 10 * a + digitValue c) 0 s"

definition unsigned :: "string \<Rightarrow> string" where
  "unsigned s = (case s of [] \<Rightarrow> [] | c # cs \<Rightarrow> if c = CHR ''-'' then cs else c # cs)"

definition isNegative :: "string \<Rightarrow> bool" where
  "isNegative s = (case s of [] \<Rightarrow> False | c # cs \<Rightarrow> c = CHR ''-'')"

definition isIntegerText :: "string \<Rightarrow> bool" where
  "isIntegerText s = (unsigned s \<noteq> [] \<and> list_all isDigit (unsigned s))"

definition isFloatText :: "string \<Rightarrow> bool" where
  "isFloatText s =
     (takeWhile isDigit (unsigned s) \<noteq> [] \<and>
      (case dropWhile isDigit (unsigned s) of
         [] \<Rightarrow> False
       | c # fp \<Rightarrow> c = CHR ''.'' \<and> fp \<noteq> [] \<and> list_all isDigit fp))"

definition signed :: "string \<Rightarrow> nat \<Rightarrow> int" where
  "signed s n = (if isNegative s then - int n else int n)"

definition parseInt :: "string \<Rightarrow> jsval" where
  "parseInt s = JInt (signed s (readNat (unsigned s)))"

definition parseFloat :: "string \<Rightarrow> jsval" where
  "parseFloat s =
     (let ip = takeWhile isDigit (unsigned s);
          fp = stripTrailingZeros (tl (dropWhile isDigit (unsigned s)))
      in if fp = [] then JInt (signed s (readNat ip))
         else JFloat (signed s (readNat (ip @ fp))) (length fp))"

definition isFunctionCall :: "string \<Rightarrow> bool" where
  "isFunctionCall s =
     (takeWhile isWord s \<noteq> [] \<and>
      (case dropWhile isWord s of [] \<Rightarrow> False | c # cs \<Rightarrow> c = CHR ''(''))"

definition parseDefaultValue :: "string \<Rightarrow> jsval" where
  "parseDefaultValue v =
     (let trimmed = trim v in
      if toUpperCase trimmed = ''NULL'' then JNull
      else if (startsWith trimmed [sq] \<and> endsWith trimmed [sq]) \<or>
              (startsWith trimmed [dq] \<and> endsWith trimmed [dq])
        then JStr (unescapeQuotes (butlast (tl trimmed)))
      else if isIntegerText trimmed then parseInt trimmed
      else if isFloatText trimmed then parseFloat trimmed
      else if trimmed = ''0'' \<or> trimmed = ''1'' then JBool (trimmed = ''1'')
      else if isFunctionCall trimmed then JStr trimmed
      else JStr trimmed)"














section \<open>Tables whose metadata is read back\<close>








section \<open>The unsupported schema mutations\<close>

text \<open>
  Each of them only throws. The foreign-key metadata is never read, so its type is left
  open.
\<close>

definition unsupported ::
  "string \<Rightarrow> string \<Rightarrow> string \<Rightarrow> query_runner \<Rightarrow> (failure + unit) \<times> query_runner" where
  "unsupported msg hint operation r =
     (Inl (DriverError (newD1ValidationError msg [(''hint'', hint), (''operation'', operation)])),
      r)"

definition dropColumn ::
  "table + string \<Rightarrow> table_column + string \<Rightarrow> query_runner \<Rightarrow> (failure + unit) \<times> query_runner"
  where
  "dropColumn tableOrName columnOrName =
     unsupported ''SQLite/D1 doesn't support DROP COLUMN''
       ''Use a migration to recreate the table'' ''dropColumn''"

definition changeColumn ::
  "table + string \<Rightarrow> table_column + string \<Rightarrow> table_column \<Rightarrow> query_runner
     \<Rightarrow> (failure + unit) \<times> query_runner" where
  "changeColumn tableOrName oldColumnOrName newColumn =
     unsupported ''SQLite/D1 has limited ALTER TABLE support''
       ''Use a migration to recreate the table'' ''changeColumn''"

definition renameColumn ::
  "table + string \<Rightarrow> table_column + string \<Rightarrow> string \<Rightarrow> query_runner
     \<Rightarrow> (failure + unit) \<times> query_runner" where
  "renameColumn tableOrName oldColumnOrName newColumnName =
     unsupported ''SQLite/D1 may not support RENAME COLUMN''
       ''Use a migration to recreate the table'' ''renameColumn''"

definition dropColumns ::
  "table + string \<Rightarrow> table_column list \<Rightarrow> query_runner \<Rightarrow> (failure + unit) \<times> query_runner"
  where
  "dropColumns tableOrName cols =
     unsupported ''SQLite/D1 doesn't support DROP COLUMN''
       ''Use a migration to recreate the table'' ''dropColumns''"

definition createForeignKey ::
  "table + string \<Rightarrow> 'fk \<Rightarrow> query_runner \<Rightarrow> (failure + unit) \<times> query_runner" where
  "createForeignKey tableOrName foreignKey =
     unsupported ''SQLite/D1 doesn't support adding foreign keys to existing tables''
       ''Define them in CREATE TABLE'' ''createForeignKey''"

definition dropForeignKey ::
  "table + string \<Rightarrow> 'fk + string \<Rightarrow> query_runner \<Rightarrow> (failure + unit) \<times> query_runner" where
  "dropForeignKey tableOrName foreignKeyOrName =
     unsupported ''SQLite/D1 doesn't support dropping foreign keys''
       ''Use a migration to recreate the table'' ''dropForeignKey''"

definition createPrimaryKey ::
  "table + string \<Rightarrow> string list \<Rightarrow> query_runner \<Rightarrow> (failure + unit) \<times> query_runner" where
  "createPrimaryKey tableOrName columnNames =
     unsupported ''SQLite/D1 doesn't support adding primary keys to existing tables''
       ''Define them in CREATE TABLE'' ''createPrimaryKey''"

definition dropPrimaryKey ::
  "table + string \<Rightarrow> query_runner \<Rightarrow> (failure + unit) \<times> query_runner" where
  "dropPrimaryKey tableOrName =
     unsupported ''SQLite/D1 doesn't support dropping primary keys''
       ''Use a migration to recreate the table'' ''dropPrimaryKey''"

text \<open>
  A stub handle for concrete runs: nothing throws, \<open>all()\<close> answers one row and \<open>run()\<close>
  answers \<open>last_row_id = 7\<close> and \<open>rows_written = 1\<close>.
\<close>

definition stubDatabase :: d1_database where
  "stubDatabase =
     \<lparr>prepareThrows = (\<lambda>q. None),
      bindThrows = (\<lambda>q vs. None),
      allResponse = (\<lambda>q b. Inr \<lparr>success = True, error = None,
         results = Some [[(''id'', JInt 1), (''name'', JStr ''a'')]],
         last_row_id = None, rows_written = None, changes = None\<rparr>),
      runResponse = (\<lambda>q b. Inr \<lparr>success = True, error = None, results = None,
         last_row_id = Some 7, rows_written = Some 1, changes = None\<rparr>)\<rparr>"

definition stubRunner :: query_runner where
  "stubRunner =
     newQueryRunner (Some \<lparr>databaseConnection = Some stubDatabase,
                           optionsDatabase = Some stubDatabase\<rparr>)"

section \<open>The invariant of the transaction-tracking state\<close>

text \<open>
  The two arrays have the same length, and both are empty whenever the flag is false.
\<close>

definition transactionInvariant :: "query_runner \<Rightarrow> bool" where
  "transactionInvariant r =
     (length (transactionStatements r) = length (transactionBindings r) \<and>
      (\<not> isTransactionActive r \<longrightarrow> transactionStatements r = [] \<and> transactionBindings r = []))"

section \<open>Properties of the string operations\<close>

lemma startsWith_append: "startsWith (p @ s) p"
  by (induction p) auto

lemma startsWith_iff: "startsWith s p \<longleftrightarrow> (\<exists>r. s = p @ r)"
  by (induction s p rule: startsWith.induct) auto

lemma includes_iff: "str_includes s sub \<longleftrightarrow> (\<exists>a b. s = a @ sub @ b)"
proof (induction s)
  case Nil
  then show ?case by auto
next
  case (Cons c cs)
  show ?case
  proof
    assume "str_includes (c # cs) sub"
    then consider "startsWith (c # cs) sub" | "str_includes cs sub" by auto
    then show "\<exists>a b. c # cs = a @ sub @ b"
    proof cases
      case 1
      then obtain r where "c # cs = sub @ r" by (auto simp: startsWith_iff)
      then have "c # cs = [] @ sub @ r" by simp
      then show ?thesis by blast
    next
      case 2
      then obtain a b where "cs = a @ sub @ b" using Cons.IH by blast
      then have "c # cs = (c # a) @ sub @ b" by simp
      then show ?thesis by blast
    qed
  next
    assume "\<exists>a b. c # cs = a @ sub @ b"
    then obtain a b where ab: "c # cs = a @ sub @ b" by blast
    show "str_includes (c # cs) sub"
    proof (cases a)
      case Nil
      with ab have "startsWith (c # cs) sub" by (auto simp: startsWith_iff)
      then show ?thesis by simp
    next
      case (Cons x a')
      with ab have "cs = a' @ sub @ b" by simp
      then have "str_includes cs sub" using Cons.IH by blast
      then show ?thesis by simp
    qed
  qed
qed

lemma includes_longer: "str_includes s (p @ q) \<Longrightarrow> str_includes s p"
proof -
  assume "str_includes s (p @ q)"
  then obtain a b where "s = a @ (p @ q) @ b" by (auto simp: includes_iff)
  then have "s = a @ p @ (q @ b)" by simp
  then show "str_includes s p" unfolding includes_iff by blast
qed

section \<open>The error classifier\<close>

text \<open>
  The longer patterns of \<open>mapErrorCode\<close> add nothing: each contains the shorter one that is
  tested beside it.
\<close>

lemma mapErrorCode_cascade:
  "mapErrorCode m d =
     (if str_includes (toLowerCase m) ''unique'' then SQLITE_CONSTRAINT_UNIQUE
      else if str_includes (toLowerCase m) ''not null'' then SQLITE_CONSTRAINT_NOTNULL
      else if str_includes (toLowerCase m) ''foreign key'' then SQLITE_CONSTRAINT_FOREIGNKEY
      else if str_includes (toLowerCase m) ''no such table'' \<or>
              str_includes (toLowerCase m) ''already exists'' \<or>
              str_includes (toLowerCase m) ''duplicate'' then SQLITE_ERROR
      else d)"
proof -
  have u: "str_includes s ''unique constraint'' \<Longrightarrow> str_includes s ''unique''" for s
    using includes_longer [of s "''unique''" "'' constraint''"] by simp
  have n: "str_includes s ''not null constraint'' \<Longrightarrow> str_includes s ''not null''" for s
    using includes_longer [of s "''not null''" "'' constraint''"] by simp
  have f: "str_includes s ''foreign key constraint'' \<Longrightarrow> str_includes s ''foreign key''" for s
    using includes_longer [of s "''foreign key''" "'' constraint''"] by simp
  show ?thesis
    unfolding mapErrorCode_def Let_def using u n f by auto
qed

text \<open>
  C7. \<open>mapErrorCode\<close> tries its patterns on the lower-cased message in the order of the
  source and the first that is found decides: \<open>unique\<close> gives the unique-constraint code,
  then \<open>not null\<close> the not-null-constraint code, then \<open>foreign key\<close> the
  foreign-key-constraint code, then any of \<open>no such table\<close>, \<open>already exists\<close> and
  \<open>duplicate\<close> the generic engine-error code; a message with none of them gets the
  caller's default code.
\<close>

theorem mapErrorCode_classification:
  "mapErrorCode errorMessage defaultCode =
     (if str_includes (toLowerCase errorMessage) ''unique'' then SQLITE_CONSTRAINT_UNIQUE
      else if str_includes (toLowerCase errorMessage) ''not null'' then SQLITE_CONSTRAINT_NOTNULL
      else if str_includes (toLowerCase errorMessage) ''foreign key''
        then SQLITE_CONSTRAINT_FOREIGNKEY
      else if str_includes (toLowerCase errorMessage) ''no such table'' \<or>
              str_includes (toLowerCase errorMessage) ''already exists'' \<or>
              str_includes (toLowerCase errorMessage) ''duplicate'' then SQLITE_ERROR
      else defaultCode)"
  by (rule mapErrorCode_cascade)

text \<open>The three messages of the specification's scenario.\<close>

lemma mapErrorCode_examples:
  "mapErrorCode ''UNIQUE constraint failed: users.email'' D1_ERROR = SQLITE_CONSTRAINT_UNIQUE"
  "mapErrorCode ''no such table: foo'' D1_ERROR = SQLITE_ERROR"
  "mapErrorCode ''connection reset'' D1_ERROR = D1_ERROR"
  by (simp_all add: mapErrorCode_cascade toLowerCase_def toLowerChar_def asciiUpper_def
      asciiLower_def)

section \<open>Wrapping thrown exceptions\<close>

lemma wrapD1Exception_code_eq:
  "code (wrapD1Exception err q) = mapErrorCode (extractErrorMessage err) (embeddedCode err)"
  by (simp add: wrapD1Exception_def newD1QueryError_def Let_def)

text \<open>
  C8, as stated, fails: a thrown \<open>Error\<close> whose \<open>code\<close> field is the known code
  \<open>SQLITE_ERROR\<close> and whose message is \<open>UNIQUE constraint failed: users.email\<close> is wrapped
  into a query error with the code \<open>SQLITE_CONSTRAINT_UNIQUE\<close>, not the embedded one.
\<close>

theorem wrapD1Exception_embedded_code_counterexample:
  "codeField \<lparr>instanceOfError = True, causeMessage = None,
       ownMessage = Some ''UNIQUE constraint failed: users.email'',
       codeField = Some ''SQLITE_ERROR'',
       rendered = ''Error: UNIQUE constraint failed: users.email''\<rparr> = Some ''SQLITE_ERROR'' \<and>
   map_of knownCodes ''SQLITE_ERROR'' = Some SQLITE_ERROR \<and>
   code (wrapD1Exception
      (ThrownObject \<lparr>instanceOfError = True, causeMessage = None,
         ownMessage = Some ''UNIQUE constraint failed: users.email'',
         codeField = Some ''SQLITE_ERROR'',
         rendered = ''Error: UNIQUE constraint failed: users.email''\<rparr>) None)
     = SQLITE_CONSTRAINT_UNIQUE \<and>
   SQLITE_CONSTRAINT_UNIQUE \<noteq> SQLITE_ERROR"
  by (simp add: wrapD1Exception_code_eq mapErrorCode_cascade knownCodes_def toLowerCase_def
      toLowerChar_def asciiUpper_def asciiLower_def)

text \<open>
  C8, amended. \<open>wrapD1Exception\<close> always produces a query error, and always classifies the
  extracted message text; the embedded code is the default it hands to the classifier.
  So, for a thrown object whose \<open>code\<close> field is one of the known codes, the query error
  carries the code of the first classifier pattern found in the message, and the embedded
  code when the message has none of the patterns.
\<close>

theorem wrapD1Exception_embedded_code_is_default:
  assumes "codeField e = Some c" and "map_of knownCodes c = Some k"
  shows "errorClass (wrapD1Exception (ThrownObject e) q) = D1QueryError \<and>
         code (wrapD1Exception (ThrownObject e) q) =
           (if str_includes (toLowerCase (extractErrorMessage (ThrownObject e))) ''unique''
              then SQLITE_CONSTRAINT_UNIQUE
            else if str_includes (toLowerCase (extractErrorMessage (ThrownObject e))) ''not null''
              then SQLITE_CONSTRAINT_NOTNULL
            else if str_includes (toLowerCase (extractErrorMessage (ThrownObject e))) ''foreign key''
              then SQLITE_CONSTRAINT_FOREIGNKEY
            else if str_includes (toLowerCase (extractErrorMessage (ThrownObject e))) ''no such table'' \<or>
                    str_includes (toLowerCase (extractErrorMessage (ThrownObject e))) ''already exists'' \<or>
                    str_includes (toLowerCase (extractErrorMessage (ThrownObject e))) ''duplicate''
              then SQLITE_ERROR
            else k)"
proof -
  have "embeddedCode (ThrownObject e) = k"
    using assms by simp
  then have "code (wrapD1Exception (ThrownObject e) q) =
      mapErrorCode (extractErrorMessage (ThrownObject e)) k"
    by (simp add: wrapD1Exception_code_eq)
  moreover have "errorClass (wrapD1Exception (ThrownObject e) q) = D1QueryError"
    by (simp add: wrapD1Exception_def newD1QueryError_def Let_def)
  ultimately show ?thesis
    by (simp only: mapErrorCode_cascade simp_thms)
qed

text \<open>
  A thrown object with the embedded code \<open>SQLITE_CONSTRAINT_NOTNULL\<close> and a message that
  matches no pattern keeps its embedded code.
\<close>

theorem wrapD1Exception_embedded_code_is_default_witness:
  "code (wrapD1Exception
      (ThrownObject \<lparr>instanceOfError = True, causeMessage = None,
         ownMessage = Some ''constraint failed'',
         codeField = Some ''SQLITE_CONSTRAINT_NOTNULL'',
         rendered = ''Error: constraint failed''\<rparr>) (Some ''INSERT INTO t VALUES (1)''))
     = SQLITE_CONSTRAINT_NOTNULL"
  using wrapD1Exception_embedded_code_is_default
    [of "\<lparr>instanceOfError = True, causeMessage = None,
         ownMessage = Some ''constraint failed'',
         codeField = Some ''SQLITE_CONSTRAINT_NOTNULL'',
         rendered = ''Error: constraint failed''\<rparr>" "''SQLITE_CONSTRAINT_NOTNULL''"
        SQLITE_CONSTRAINT_NOTNULL "Some ''INSERT INTO t VALUES (1)''"]
  by (simp add: knownCodes_def toLowerCase_def toLowerChar_def asciiUpper_def asciiLower_def)

section \<open>The query normalizer: rewriting of DROP INDEX\<close>

lemma toUpperCase_append: "toUpperCase (a @ b) = toUpperCase a @ toUpperCase b"
  by (simp add: toUpperCase_def)

lemma length_toUpperCase: "length (toUpperCase s) = length s"
  by (simp add: toUpperCase_def)

lemma isSpace_cases:
  "isSpace c \<longleftrightarrow> c = CHR 0x09 \<or> c = CHR 0x0A \<or> c = CHR 0x0B \<or> c = CHR 0x0C \<or>
     c = CHR 0x0D \<or> c = CHR 0x20 \<or> c = CHR 0xA0"
  by (simp add: isSpace_def)

lemma toUpperChar_space:
  "toUpperChar (CHR 0x09) = CHR 0x09" "toUpperChar (CHR 0x0A) = CHR 0x0A"
  "toUpperChar (CHR 0x0B) = CHR 0x0B" "toUpperChar (CHR 0x0C) = CHR 0x0C"
  "toUpperChar (CHR 0x0D) = CHR 0x0D" "toUpperChar (CHR 0x20) = CHR 0x20"
  "toUpperChar (CHR 0xA0) = CHR 0xA0"
  by (simp_all add: toUpperChar_def asciiLower_def asciiUpper_def)

lemma isSpace_toUpperChar: "isSpace c \<Longrightarrow> toUpperChar c = c"
  unfolding isSpace_cases using toUpperChar_space by (elim disjE) simp_all

lemma upper_letter_not_space:
  assumes "toUpperChar c = d" and "\<not> isSpace d"
  shows "\<not> isSpace c"
  using assms isSpace_toUpperChar [of c] by auto

lemma normalizeQuery_changed:
  "normalizeQuery q = q \<or> (\<exists>rest. normalizeQuery q = ''DROP INDEX IF EXISTS '' @ rest)"
  by (auto simp: normalizeQuery_def split: option.splits)

lemma includes_if_exists:
  "str_includes (toUpperCase (''DROP INDEX IF EXISTS '' @ rest)) ''IF EXISTS''"
proof -
  have "toUpperCase (''DROP INDEX IF EXISTS '' @ rest) =
      ''DROP INDEX '' @ ''IF EXISTS'' @ ('' '' @ toUpperCase rest)"
    by (simp add: toUpperCase_def toUpperChar_def asciiLower_def asciiUpper_def)
  then show ?thesis unfolding includes_iff by blast
qed

lemma normalizeQuery_idem: "normalizeQuery (normalizeQuery q) = normalizeQuery q"
proof -
  consider "normalizeQuery q = q"
    | rest where "normalizeQuery q = ''DROP INDEX IF EXISTS '' @ rest"
    using normalizeQuery_changed by blast
  then show ?thesis
  proof cases
    case 1
    then show ?thesis by simp
  next
    case 2
    have "normalizeQuery (''DROP INDEX IF EXISTS '' @ rest) = ''DROP INDEX IF EXISTS '' @ rest"
      unfolding normalizeQuery_def using includes_if_exists [of rest]
      by (simp del: str_includes.simps)
    then show ?thesis using 2 by simp
  qed
qed

lemma trim_keeps_prefix:
  assumes "p \<noteq> []" and "\<not> isSpace (hd p)" and "\<not> isSpace (last p)"
  shows "\<exists>t. trim (p @ s) = p @ t"
proof -
  have front: "dropWhile isSpace (p @ s) = p @ s"
    using assms(1,2) by (cases p) auto
  have "\<exists>u. dropWhile isSpace (rev s @ rev p) = u @ rev p"
  proof (cases "\<forall>c\<in>set (rev s). isSpace c")
    case True
    have "dropWhile isSpace (rev p) = rev p"
      using assms(1,3) by (cases "rev p") (auto simp: hd_rev [symmetric] dest: arg_cong [where f = hd])
    with True have "dropWhile isSpace (rev s @ rev p) = [] @ rev p"
      by (simp add: dropWhile_append)
    then show ?thesis by blast
  next
    case False
    then have "dropWhile isSpace (rev s @ rev p) = dropWhile isSpace (rev s) @ rev p"
      by (auto simp: dropWhile_append)
    then show ?thesis by blast
  qed
  then obtain u where "dropWhile isSpace (rev s @ rev p) = u @ rev p" by blast
  then have "trim (p @ s) = p @ rev u"
    by (simp add: trim_def front)
  then show ?thesis by blast
qed

lemma upper_DROP_INDEX_ends:
  assumes "toUpperCase p = ''DROP INDEX''"
  shows "p \<noteq> [] \<and> \<not> isSpace (hd p) \<and> \<not> isSpace (last p) \<and> length p = 10"
proof -
  have len: "length p = 10"
    using assms length_toUpperCase [of p] by simp
  then have ne: "p \<noteq> []" by auto
  have "hd (map toUpperChar p) = CHR ''D''" and "last (map toUpperChar p) = CHR ''X''"
    using assms by (simp_all add: toUpperCase_def)
  then have a: "toUpperChar (hd p) = CHR ''D''" and j: "toUpperChar (last p) = CHR ''X''"
    using ne by (simp_all add: hd_map last_map)
  have "\<not> isSpace (hd p)"
    by (rule upper_letter_not_space [OF a]) (simp add: isSpace_def)
  moreover have "\<not> isSpace (last p)"
    by (rule upper_letter_not_space [OF j]) (simp add: isSpace_def)
  ultimately show ?thesis using ne len by simp
qed

lemma matchDropIndex_decomposition:
  assumes "q = p @ w @ r" and "toUpperCase p = ''DROP INDEX''" and "w \<noteq> []"
    and "\<forall>c\<in>set w. isSpace c" and "dropWhile isSpace r = r"
  shows "matchDropIndex q = Some r \<and> startsWith (toUpperCase (trim q)) ''DROP INDEX''"
proof -
  from upper_DROP_INDEX_ends [OF assms(2)]
  have ends: "p \<noteq> []" "\<not> isSpace (hd p)" "\<not> isSpace (last p)" "length p = 10" by simp_all
  have "toUpperCase q = ''DROP INDEX'' @ toUpperCase (w @ r)"
    using assms(1,2) by (simp add: toUpperCase_append)
  then have sw: "startsWith (toUpperCase q) ''DROP INDEX''"
    using startsWith_append by metis
  have d: "drop 10 q = w @ r"
    using assms(1) ends(4) by simp
  obtain c w' where w: "w = c # w'" using assms(3) by (cases w) auto
  have "dropWhile isSpace (w @ r) = r"
    using assms(4,5) by (simp add: dropWhile_append)
  with sw d w assms(4) have m: "matchDropIndex q = Some r"
    by (simp add: matchDropIndex_def del: startsWith.simps)
  obtain t where "trim q = p @ t"
    using trim_keeps_prefix [OF ends(1-3), of "w @ r"] assms(1) by auto
  then have "toUpperCase (trim q) = ''DROP INDEX'' @ toUpperCase t"
    using assms(2) by (simp add: toUpperCase_append)
  then have "startsWith (toUpperCase (trim q)) ''DROP INDEX''"
    using startsWith_append by metis
  with m show ?thesis by simp
qed

lemma matchDropIndex_Some:
  assumes "matchDropIndex q = Some r"
  shows "\<exists>p w. q = p @ w @ r \<and> toUpperCase p = ''DROP INDEX'' \<and> w \<noteq> [] \<and>
           (\<forall>c\<in>set w. isSpace c)"
proof -
  from assms have sw: "startsWith (toUpperCase q) ''DROP INDEX''"
    and nz: "case drop 10 q of [] \<Rightarrow> False | c # cs \<Rightarrow> isSpace c"
    and r: "r = dropWhile isSpace (drop 10 q)"
    by (auto simp: matchDropIndex_def split: if_splits simp del: startsWith.simps)
  from sw obtain x where x: "toUpperCase q = ''DROP INDEX'' @ x"
    unfolding startsWith_iff by blast
  have "toUpperCase (take 10 q) = take 10 (toUpperCase q)"
    by (simp add: toUpperCase_def take_map)
  with x have up: "toUpperCase (take 10 q) = ''DROP INDEX''" by simp
  let ?w = "takeWhile isSpace (drop 10 q)"
  have "q = take 10 q @ ?w @ r"
    using r by simp
  moreover have "?w \<noteq> []"
    using nz by (cases "drop 10 q") auto
  moreover have "\<forall>c\<in>set ?w. isSpace c"
    by (auto dest: set_takeWhileD)
  ultimately show ?thesis using up by blast
qed

text \<open>
  What the rewrite does on ASCII text, where the upper-casing of the model is JavaScript's.
  A query that begins with \<open>DROP INDEX\<close> in either case (\<open>p\<close>), followed by at least one
  white-space character (\<open>w\<close>, the whole run of white space) and then the rest \<open>r\<close>, and that
  has no \<open>IF EXISTS\<close> in either case, is returned as \<open>DROP INDEX IF EXISTS\<close>, one space and
  \<open>r\<close>. A query that has \<open>IF EXISTS\<close> is returned unchanged, and \<open>normalizeQuery\<close> is
  idempotent.
\<close>

lemma normalizeQuery_after_white_space:
  assumes "list_all isAscii q"
  shows "(q = p @ w @ r \<and> toUpperCase p = ''DROP INDEX'' \<and> w \<noteq> [] \<and> (\<forall>c\<in>set w. isSpace c) \<and>
      dropWhile isSpace r = r \<and> \<not> str_includes (toUpperCase q) ''IF EXISTS''
      \<longrightarrow> normalizeQuery q = ''DROP INDEX IF EXISTS '' @ r) \<and>
   (str_includes (toUpperCase q) ''IF EXISTS'' \<longrightarrow> normalizeQuery q = q) \<and>
   normalizeQuery (normalizeQuery q) = normalizeQuery q"
proof (intro conjI impI)
  assume a: "q = p @ w @ r \<and> toUpperCase p = ''DROP INDEX'' \<and> w \<noteq> [] \<and>
    (\<forall>c\<in>set w. isSpace c) \<and> dropWhile isSpace r = r \<and>
    \<not> str_includes (toUpperCase q) ''IF EXISTS''"
  then have m: "matchDropIndex q = Some r"
    and t: "startsWith (toUpperCase (trim q)) ''DROP INDEX''"
    using matchDropIndex_decomposition [of q p w r] by blast+
  from a have n: "\<not> str_includes (toUpperCase q) ''IF EXISTS''" by blast
  show "normalizeQuery q = ''DROP INDEX IF EXISTS '' @ r"
    unfolding normalizeQuery_def using m t n by (simp del: startsWith.simps str_includes.simps)
next
  assume "str_includes (toUpperCase q) ''IF EXISTS''"
  then show "normalizeQuery q = q"
    by (simp add: normalizeQuery_def)
next
  show "normalizeQuery (normalizeQuery q) = normalizeQuery q"
    by (rule normalizeQuery_idem)
qed

lemma normalizeQuery_examples:
  "normalizeQuery ''drop index   foo'' = ''DROP INDEX IF EXISTS foo'' \<and>
   normalizeQuery ''DROP INDEX IF EXISTS x'' = ''DROP INDEX IF EXISTS x''"
  by (simp add: normalizeQuery_def matchDropIndex_def trim_def toUpperCase_def toUpperChar_def
      asciiLower_def asciiUpper_def isSpace_def)

text \<open>
  C3. Two queries that begin with \<open>DROP INDEX\<close> and have no \<open>IF EXISTS\<close>, and that
  \<open>normalizeQuery\<close> returns as they are, with nothing inserted:
  \<open>DROP INDEX"idx_users_email"\<close>, a valid statement with no white space before the quoted
  name, and \<open> DROP INDEX idx_users_email\<close>, with a space in front. Both pass the test on the
  trimmed, upper-cased query; the replacement, anchored at the start of the untrimmed query
  and asking for white space after \<open>INDEX\<close>, finds nothing to replace.
\<close>

theorem normalizeQuery_misses_drop_index:
  "startsWith (toUpperCase (trim ''DROP INDEX\"idx_users_email\"'')) ''DROP INDEX'' \<and>
   \<not> str_includes (toUpperCase ''DROP INDEX\"idx_users_email\"'') ''IF EXISTS'' \<and>
   normalizeQuery ''DROP INDEX\"idx_users_email\"'' = ''DROP INDEX\"idx_users_email\"'' \<and>
   startsWith (toUpperCase (trim '' DROP INDEX idx_users_email'')) ''DROP INDEX'' \<and>
   \<not> str_includes (toUpperCase '' DROP INDEX idx_users_email'') ''IF EXISTS'' \<and>
   normalizeQuery '' DROP INDEX idx_users_email'' = '' DROP INDEX idx_users_email''"
  by (simp add: normalizeQuery_def matchDropIndex_def trim_def toUpperCase_def toUpperChar_def
      asciiLower_def asciiUpper_def isSpace_def)

section \<open>The query runner: what reaches the remote handle\<close>

lemma connect_state:
  "isTransactionActive (snd (connect r)) = isTransactionActive r \<and>
   transactionStatements (snd (connect r)) = transactionStatements r \<and>
   transactionBindings (snd (connect r)) = transactionBindings r \<and>
   remoteCalls (snd (connect r)) = remoteCalls r"
  by (simp add: connect_def split: option.splits)

lemma executeQuery_tail:
  "snd (case response of
          Inl t \<Rightarrow> (Inl (f t), r3)
        | Inr result \<Rightarrow>
            (case chk result of Some e \<Rightarrow> (Inl (g e), r3) | None \<Rightarrow> (Inr (h result), r3))) = r3"
  by (simp split: sum.splits option.splits)

lemma executeQuery_snd:
  "snd (executeQuery db q ps st sel ins r) =
     r\<lparr>remoteCalls := remoteCalls r @ Prepare q #
        (case prepareThrows db q of
           Some t \<Rightarrow> []
         | None \<Rightarrow>
             (case boundParameters ps of
                None \<Rightarrow> [if sel then CallAll else CallRun]
              | Some vs \<Rightarrow>
                  Bind vs # (case bindThrows db q vs of
                               Some t \<Rightarrow> []
                             | None \<Rightarrow> [if sel then CallAll else CallRun])))\<rparr>"
proof (cases "prepareThrows db q")
  case (Some t)
  then show ?thesis by (simp add: executeQuery_def logCall_def)
next
  case None
  note prep = None
  show ?thesis
  proof (cases "boundParameters ps")
    case None
    with prep show ?thesis
      by (simp add: executeQuery_def logCall_def Let_def executeQuery_tail)
  next
    case (Some vs)
    note bound = Some
    show ?thesis
    proof (cases "bindThrows db q vs")
      case None
      with prep bound show ?thesis
        by (simp add: executeQuery_def logCall_def Let_def executeQuery_tail)
    next
      case (Some t)
      with prep bound show ?thesis
        by (simp add: executeQuery_def logCall_def Let_def)
    qed
  qed
qed

lemma boundParameters_Some:
  "boundParameters ps = Some vs \<longleftrightarrow>
     (\<exists>xs. ps = Some xs \<and> xs \<noteq> [] \<and>
        vs = spread (arrayMap (\<lambda>p. if p = JUndefined then JNull else p) xs))"
  by (auto simp: boundParameters_def Let_def split: option.splits)

lemma spread_undefined:
  "JUndefined \<in> set (spread (arrayMap (\<lambda>p. if p = JUndefined then JNull else p) xs)) \<longleftrightarrow>
     None \<in> set xs"
  by (induction xs) (auto simp: spread_def arrayMap_def split: option.splits)

lemma executeQuery_calls:
  "\<exists>post. snd (executeQuery db q ps st sel ins r) =
       r\<lparr>remoteCalls := remoteCalls r @ Prepare q # post\<rparr> \<and>
     (\<forall>vs. Bind vs \<in> set post \<longrightarrow> boundParameters ps = Some vs) \<and>
     (\<forall>vs. boundParameters ps = Some vs \<and> prepareThrows db q = None \<longrightarrow> Bind vs \<in> set post)"
proof -
  define post where "post =
        (case prepareThrows db q of
           Some t \<Rightarrow> []
         | None \<Rightarrow>
             (case boundParameters ps of
                None \<Rightarrow> [if sel then CallAll else CallRun]
              | Some vs \<Rightarrow>
                  Bind vs # (case bindThrows db q vs of
                               Some t \<Rightarrow> []
                             | None \<Rightarrow> [if sel then CallAll else CallRun])))"
  have s: "snd (executeQuery db q ps st sel ins r) =
       r\<lparr>remoteCalls := remoteCalls r @ Prepare q # post\<rparr>"
    unfolding post_def by (rule executeQuery_snd)
  have a: "Bind vs \<in> set post \<Longrightarrow> boundParameters ps = Some vs" for vs
    unfolding post_def by (auto split: option.splits if_splits)
  have b: "boundParameters ps = Some vs \<Longrightarrow> prepareThrows db q = None \<Longrightarrow> Bind vs \<in> set post"
    for vs
    unfolding post_def by (auto split: option.splits)
  show ?thesis using s a b by blast
qed

lemma query_state:
  "\<exists>calls. remoteCalls (snd (query q ps st r)) = remoteCalls r @ calls \<and>
     isTransactionActive (snd (query q ps st r)) = isTransactionActive r \<and>
     (\<exists>ss bs. transactionStatements (snd (query q ps st r)) = transactionStatements r @ ss \<and>
        transactionBindings (snd (query q ps st r)) = transactionBindings r @ bs \<and>
        length ss = length bs \<and> (\<not> isTransactionActive r \<longrightarrow> ss = [])) \<and>
     (\<forall>vs. Bind vs \<in> set calls \<longrightarrow> boundParameters ps = Some vs) \<and>
     (\<forall>vs db r1. boundParameters ps = Some vs \<and> connect r = (Inr db, r1) \<and>
         prepareThrows db (normalizeQuery q) = None \<longrightarrow> Bind vs \<in> set calls)"
proof (cases "connect r")
  case (Pair res r1)
  have r1: "isTransactionActive r1 = isTransactionActive r"
    "transactionStatements r1 = transactionStatements r"
    "transactionBindings r1 = transactionBindings r" "remoteCalls r1 = remoteCalls r"
    using connect_state [of r] Pair by simp_all
  show ?thesis
  proof (cases res)
    case (Inl e)
    with Pair r1 have "snd (query q ps st r) = r1" by (simp add: query_def)
    with r1 Pair Inl show ?thesis by simp
  next
    case (Inr db)
    define r2 where "r2 = (if isTransactionActive r1 then
        r1\<lparr>transactionStatements := transactionStatements r1 @ [normalizeQuery q],
           transactionBindings := transactionBindings r1 @
             [case ps of Some xs \<Rightarrow> xs | None \<Rightarrow> []]\<rparr>
      else r1)"
    define nq where "nq = normalizeQuery q"
    have q: "query q ps st r = executeQuery db nq ps st
        (isSelect (determineQueryType nq)) (isInsert (determineQueryType nq)) r2"
      using Pair Inr by (simp add: query_def r2_def nq_def Let_def)
    obtain post where post:
      "snd (query q ps st r) = r2\<lparr>remoteCalls := remoteCalls r2 @ Prepare nq # post\<rparr>"
      "\<forall>vs. Bind vs \<in> set post \<longrightarrow> boundParameters ps = Some vs"
      "\<forall>vs. boundParameters ps = Some vs \<and> prepareThrows db nq = None \<longrightarrow> Bind vs \<in> set post"
      using executeQuery_calls [of db nq ps st "isSelect (determineQueryType nq)"
          "isInsert (determineQueryType nq)" r2] unfolding q by blast
    have calls: "remoteCalls (snd (query q ps st r)) = remoteCalls r @ (Prepare nq # post)"
      using post(1) r1 by (simp add: r2_def)
    have act: "isTransactionActive (snd (query q ps st r)) = isTransactionActive r"
      using post(1) r1 by (simp add: r2_def)
    have tr: "\<exists>ss bs. transactionStatements (snd (query q ps st r)) = transactionStatements r @ ss \<and>
        transactionBindings (snd (query q ps st r)) = transactionBindings r @ bs \<and>
        length ss = length bs \<and> (\<not> isTransactionActive r \<longrightarrow> ss = [])"
    proof (cases "isTransactionActive r")
      case True
      then have "transactionStatements (snd (query q ps st r)) = transactionStatements r @ [nq]"
        and "transactionBindings (snd (query q ps st r)) =
          transactionBindings r @ [case ps of Some xs \<Rightarrow> xs | None \<Rightarrow> []]"
        using post(1) r1 by (simp_all add: r2_def nq_def)
      then show ?thesis using True by fastforce
    next
      case False
      then have "transactionStatements (snd (query q ps st r)) = transactionStatements r @ []"
        and "transactionBindings (snd (query q ps st r)) = transactionBindings r @ []"
        using post(1) r1 by (simp_all add: r2_def)
      then show ?thesis by (intro exI [where x = "[]"]) simp
    qed
    have b1: "\<forall>vs. Bind vs \<in> set (Prepare nq # post) \<longrightarrow> boundParameters ps = Some vs"
      using post(2) by auto
    have b2: "\<forall>vs db' r1'. boundParameters ps = Some vs \<and> connect r = (Inr db', r1') \<and>
         prepareThrows db' (normalizeQuery q) = None \<longrightarrow> Bind vs \<in> set (Prepare nq # post)"
      using post(3) Pair Inr by (auto simp: nq_def)
    show ?thesis
      using calls act tr b1 b2 by blast
  qed
qed

text \<open>
  What \<open>bind\<close> is called with. A call of \<open>query\<close> with the parameter array \<open>ps\<close> adds requests
  to those the remote handle has seen. Every \<open>bind\<close> among them carries the spread of the
  mapped array: \<open>null\<close> in the place of each element that is \<open>undefined\<close>, and \<open>undefined\<close> in
  the place of each hole. So a bound value is \<open>undefined\<close> exactly when \<open>ps\<close> has a hole. When
  \<open>ps\<close> is not empty, the connection is there and \<open>prepare\<close> returns, \<open>bind\<close> is called.
\<close>

lemma query_binds_undefined_only_for_holes:
  "\<exists>calls. remoteCalls (snd (query q (Some ps) st r)) = remoteCalls r @ calls \<and>
     (\<forall>vs. Bind vs \<in> set calls \<longrightarrow>
        vs = spread (arrayMap (\<lambda>p. if p = JUndefined then JNull else p) ps) \<and>
        (JUndefined \<in> set vs \<longleftrightarrow> None \<in> set ps)) \<and>
     (\<forall>db r1. ps \<noteq> [] \<and> connect r = (Inr db, r1) \<and> prepareThrows db (normalizeQuery q) = None
        \<longrightarrow> Bind (spread (arrayMap (\<lambda>p. if p = JUndefined then JNull else p) ps)) \<in> set calls)"
proof -
  obtain calls where c: "remoteCalls (snd (query q (Some ps) st r)) = remoteCalls r @ calls"
    "\<forall>vs. Bind vs \<in> set calls \<longrightarrow> boundParameters (Some ps) = Some vs"
    "\<forall>vs db r1. boundParameters (Some ps) = Some vs \<and> connect r = (Inr db, r1) \<and>
         prepareThrows db (normalizeQuery q) = None \<longrightarrow> Bind vs \<in> set calls"
    using query_state [of q "Some ps" st r] by blast
  have a: "Bind vs \<in> set calls \<Longrightarrow>
        vs = spread (arrayMap (\<lambda>p. if p = JUndefined then JNull else p) ps) \<and>
        (JUndefined \<in> set vs \<longleftrightarrow> None \<in> set ps)" for vs
    using c(2) boundParameters_Some [of "Some ps" vs] spread_undefined [of ps] by auto
  have b: "ps \<noteq> [] \<Longrightarrow> connect r = (Inr db, r1) \<Longrightarrow> prepareThrows db (normalizeQuery q) = None
        \<Longrightarrow> Bind (spread (arrayMap (\<lambda>p. if p = JUndefined then JNull else p) ps)) \<in> set calls"
    for db r1
    using c(3) boundParameters_Some [of "Some ps"] by blast
  show ?thesis using c(1) a b by (intro exI [of _ calls]) blast
qed

text \<open>The exchange with the stub handle when the first parameter is \<open>undefined\<close>.\<close>

lemma stub_query_calls:
  "remoteCalls (snd (query ''INSERT INTO t VALUES (?, ?)'' (Some [Some JUndefined, Some (JInt 1)])
      False stubRunner))
     = [Prepare ''INSERT INTO t VALUES (?, ?)'', Bind [JNull, JInt 1], CallRun]"
  by (simp add: query_def connect_def stubRunner_def newQueryRunner_def stubDatabase_def
      executeQuery_def boundParameters_def arrayMap_def spread_def logCall_def Let_def
      normalizeQuery_def determineQueryType_def
      trim_def isSpace_def toUpperCase_def toUpperChar_def asciiLower_def asciiUpper_def
      checkD1Error_def)

text \<open>
  C4. The claim holds for every array without holes, and fails for an array with one:
  \<open>query("INSERT INTO t VALUES (?, ?)", [ , 1])\<close>, whose parameter array has length two and
  a hole at index 0, calls \<open>bind(undefined, 1)\<close>. \<open>map\<close> leaves the hole where it is and the
  spread hands it to \<open>bind\<close> as \<open>undefined\<close>, the value the conversion is there to keep away
  from the remote handle.
\<close>

theorem query_binds_undefined_for_hole:
  "remoteCalls (snd (query ''INSERT INTO t VALUES (?, ?)'' (Some [None, Some (JInt 1)])
      False stubRunner))
     = [Prepare ''INSERT INTO t VALUES (?, ?)'', Bind [JUndefined, JInt 1], CallRun]"
  by (simp add: query_def connect_def stubRunner_def newQueryRunner_def stubDatabase_def
      executeQuery_def boundParameters_def arrayMap_def spread_def logCall_def Let_def
      normalizeQuery_def determineQueryType_def
      trim_def isSpace_def toUpperCase_def toUpperChar_def asciiLower_def asciiUpper_def
      checkD1Error_def)

section \<open>The transaction lifecycle\<close>

text \<open>
  C5. \<open>startTransaction\<close> throws exactly when a transaction is active, \<open>commitTransaction\<close>
  and \<open>rollbackTransaction\<close> throw exactly when none is; what they throw is a transaction
  error; and a call that throws leaves the runner, and so its flag and both arrays, as it
  was.
\<close>

theorem transaction_errors:
  "(isl (fst (startTransaction r)) \<longleftrightarrow> isTransactionActive r) \<and>
   (isl (fst (commitTransaction r)) \<longleftrightarrow> \<not> isTransactionActive r) \<and>
   (isl (fst (rollbackTransaction r)) \<longleftrightarrow> \<not> isTransactionActive r) \<and>
   (\<forall>f. fst (startTransaction r) = Inl f \<or> fst (commitTransaction r) = Inl f \<or>
        fst (rollbackTransaction r) = Inl f
      \<longrightarrow> (\<exists>e. f = DriverError e \<and> errorClass e = D1TransactionError)) \<and>
   (isl (fst (startTransaction r)) \<longrightarrow> snd (startTransaction r) = r) \<and>
   (isl (fst (commitTransaction r)) \<longrightarrow> snd (commitTransaction r) = r) \<and>
   (isl (fst (rollbackTransaction r)) \<longrightarrow> snd (rollbackTransaction r) = r)"
  by (auto simp: startTransaction_def commitTransaction_def rollbackTransaction_def
      newD1TransactionError_def)

text \<open>
  Starting twice in a row fails the second time; committing or rolling back a fresh runner
  fails.
\<close>

theorem transaction_errors_witness:
  "\<not> isl (fst (startTransaction (newQueryRunner None))) \<and>
   isl (fst (startTransaction (snd (startTransaction (newQueryRunner None))))) \<and>
   snd (startTransaction (snd (startTransaction (newQueryRunner None)))) =
     snd (startTransaction (newQueryRunner None)) \<and>
   isl (fst (commitTransaction (newQueryRunner None))) \<and>
   snd (commitTransaction (newQueryRunner None)) = newQueryRunner None \<and>
   isl (fst (rollbackTransaction (newQueryRunner None))) \<and>
   snd (rollbackTransaction (newQueryRunner None)) = newQueryRunner None"
  using transaction_errors [of "newQueryRunner None"] transaction_errors [of "snd (startTransaction (newQueryRunner None))"]
  by (simp add: startTransaction_def newQueryRunner_def)

text \<open>
  C10. Each of \<open>query\<close>, \<open>startTransaction\<close>, \<open>commitTransaction\<close>, \<open>rollbackTransaction\<close> and
  \<open>release\<close> preserves the invariant, whether it returns or throws. A new runner satisfies
  it.
\<close>

theorem transaction_invariant_preserved:
  assumes "transactionInvariant r"
  shows "transactionInvariant (snd (query q ps st r)) \<and>
         transactionInvariant (snd (startTransaction r)) \<and>
         transactionInvariant (snd (commitTransaction r)) \<and>
         transactionInvariant (snd (rollbackTransaction r)) \<and>
         transactionInvariant (snd (release r))"
proof -
  have "transactionInvariant (snd (query q ps st r))"
    using query_state [of q ps st r] assms unfolding transactionInvariant_def by auto
  moreover have "transactionInvariant (snd (startTransaction r))"
    using assms by (simp add: transactionInvariant_def startTransaction_def)
  moreover have "transactionInvariant (snd (commitTransaction r))"
    using assms by (simp add: transactionInvariant_def commitTransaction_def)
  moreover have "transactionInvariant (snd (rollbackTransaction r))"
    using assms by (simp add: transactionInvariant_def rollbackTransaction_def)
  moreover have "transactionInvariant (snd (release r))"
    using assms by (simp add: transactionInvariant_def release_def)
  ultimately show ?thesis by simp
qed

lemma transactionInvariant_new: "transactionInvariant (newQueryRunner d)"
  by (simp add: transactionInvariant_def newQueryRunner_def)

theorem transaction_invariant_preserved_witness:
  "transactionInvariant stubRunner \<and>
   transactionInvariant (snd (startTransaction stubRunner)) \<and>
   transactionInvariant (snd (query ''INSERT INTO t VALUES (?)'' (Some [Some (JInt 1)]) False
      (snd (startTransaction stubRunner)))) \<and>
   transactionInvariant (snd (release (snd (query ''INSERT INTO t VALUES (?)'' (Some [Some (JInt 1)]) False
      (snd (startTransaction stubRunner))))))"
  using transaction_invariant_preserved [of stubRunner "''x''" None False]
    transaction_invariant_preserved [of "snd (startTransaction stubRunner)" "''INSERT INTO t VALUES (?)''" "Some [Some (JInt 1)]" False]
    transaction_invariant_preserved [of "snd (query ''INSERT INTO t VALUES (?)'' (Some [Some (JInt 1)]) False
      (snd (startTransaction stubRunner)))" "''x''" None False]
    transactionInvariant_new [of "Some \<lparr>databaseConnection = Some stubDatabase,
                           optionsDatabase = Some stubDatabase\<rparr>"]
  by (simp add: stubRunner_def)

section \<open>The unsupported schema mutations always throw\<close>

text \<open>
  C6. Each of \<open>dropColumn\<close>, \<open>changeColumn\<close>, \<open>renameColumn\<close>, \<open>dropColumns\<close>,
  \<open>createForeignKey\<close>, \<open>dropForeignKey\<close>, \<open>createPrimaryKey\<close> and \<open>dropPrimaryKey\<close> throws, for
  all arguments and in every state, a validation error whose context names the operation,
  and leaves the runner as it was: nothing is sent to the remote handle.
\<close>

theorem unsupported_operations_throw:
  "(\<exists>e. dropColumn tn1 cn1 r = (Inl (DriverError e), r) \<and> errorClass e = D1ValidationError \<and>
        map_of (errContext e) ''operation'' = Some ''dropColumn'') \<and>
   (\<exists>e. changeColumn tn2 cn2 nc2 r = (Inl (DriverError e), r) \<and>
        errorClass e = D1ValidationError \<and>
        map_of (errContext e) ''operation'' = Some ''changeColumn'') \<and>
   (\<exists>e. renameColumn tn3 cn3 nn3 r = (Inl (DriverError e), r) \<and>
        errorClass e = D1ValidationError \<and>
        map_of (errContext e) ''operation'' = Some ''renameColumn'') \<and>
   (\<exists>e. dropColumns tn4 cs4 r = (Inl (DriverError e), r) \<and> errorClass e = D1ValidationError \<and>
        map_of (errContext e) ''operation'' = Some ''dropColumns'') \<and>
   (\<exists>e. createForeignKey tn5 fk5 r = (Inl (DriverError e), r) \<and>
        errorClass e = D1ValidationError \<and>
        map_of (errContext e) ''operation'' = Some ''createForeignKey'') \<and>
   (\<exists>e. dropForeignKey tn6 fk6 r = (Inl (DriverError e), r) \<and>
        errorClass e = D1ValidationError \<and>
        map_of (errContext e) ''operation'' = Some ''dropForeignKey'') \<and>
   (\<exists>e. createPrimaryKey tn7 cns7 r = (Inl (DriverError e), r) \<and>
        errorClass e = D1ValidationError \<and>
        map_of (errContext e) ''operation'' = Some ''createPrimaryKey'') \<and>
   (\<exists>e. dropPrimaryKey tn8 r = (Inl (DriverError e), r) \<and> errorClass e = D1ValidationError \<and>
        map_of (errContext e) ''operation'' = Some ''dropPrimaryKey'')"
  by (simp add: dropColumn_def changeColumn_def renameColumn_def dropColumns_def
      createForeignKey_def dropForeignKey_def createPrimaryKey_def dropPrimaryKey_def
      unsupported_def newD1ValidationError_def)

section \<open>Default values: from the value to SQL text and back\<close>

lemma trim_id:
  assumes "s \<noteq> []" and "\<not> isSpace (hd s)" and "\<not> isSpace (last s)"
  shows "trim s = s"
proof -
  have "dropWhile isSpace s = s" using assms(1,2) by (cases s) auto
  moreover have "dropWhile isSpace (rev s) = rev s"
    using assms(1,3) by (cases "rev s") (auto simp: last_rev [symmetric] hd_rev)
  ultimately show ?thesis by (simp add: trim_def)
qed

lemma lt10_cases:
  "d < 10 \<Longrightarrow> d = 0 \<or> d = 1 \<or> d = 2 \<or> d = 3 \<or> d = 4 \<or> d = 5 \<or> d = 6 \<or> d = 7 \<or> d = 8 \<or> d = (9::nat)"
  by arith

lemma digitChar_props:
  assumes "d < 10"
  shows "isDigit (digitChar d)" and "digitValue (digitChar d) = d"
    and "digitChar d = CHR ''0'' \<longleftrightarrow> d = 0"
  using lt10_cases [OF assms]
  by (elim disjE; simp add: digitChar_def isDigit_def digitValue_def)+

lemma isDigit_cases:
  "isDigit c \<longleftrightarrow> c = CHR ''0'' \<or> c = CHR ''1'' \<or> c = CHR ''2'' \<or> c = CHR ''3'' \<or> c = CHR ''4'' \<or>
     c = CHR ''5'' \<or> c = CHR ''6'' \<or> c = CHR ''7'' \<or> c = CHR ''8'' \<or> c = CHR ''9''"
  by (simp add: isDigit_def)

lemma isDigit_props:
  assumes "isDigit c"
  shows "\<not> isSpace c" and "c \<noteq> sq" and "c \<noteq> dq" and "c \<noteq> CHR ''-''" and "c \<noteq> CHR ''.''"
    and "toUpperChar c \<noteq> CHR ''N''" and "c \<noteq> CHR ''(''"
  using assms unfolding isDigit_cases
  by (elim disjE; simp add: isSpace_def sq_def dq_def toUpperChar_def asciiLower_def asciiUpper_def)+

lemma showNat_digits: "list_all isDigit (showNat n)"
proof (induction n rule: showNat.induct)
  case (1 n)
  show ?case
  proof (cases "n < 10")
    case True
    then show ?thesis by (subst showNat.simps) (simp add: digitChar_props)
  next
    case False
    then show ?thesis using "1.IH" by (subst showNat.simps) (simp add: digitChar_props)
  qed
qed

lemma showNat_nonempty: "showNat n \<noteq> []"
  by (subst showNat.simps) simp

lemma last_showNat: "last (showNat n) = digitChar (n mod 10)"
  by (subst showNat.simps) simp

lemma readNat_snoc: "readNat (xs @ [c]) = 10 * readNat xs + digitValue c"
  by (simp add: readNat_def)

lemma readNat_showNat: "readNat (showNat n) = n"
proof (induction n rule: showNat.induct)
  case (1 n)
  show ?case
  proof (cases "n < 10")
    case True
    then show ?thesis by (subst showNat.simps) (simp add: readNat_def digitChar_props)
  next
    case False
    then have "readNat (showNat n) = 10 * (n div 10) + n mod 10"
      using "1.IH" by (subst showNat.simps) (simp add: readNat_snoc digitChar_props)
    then show ?thesis by simp
  qed
qed

lemma readNat_append: "readNat (xs @ ys) = readNat xs * 10 ^ length ys + readNat ys"
proof (induction ys rule: rev_induct)
  case Nil
  then show ?case by (simp add: readNat_def)
next
  case (snoc y ys)
  have "readNat (xs @ ys @ [y]) = 10 * readNat (xs @ ys) + digitValue y"
    using readNat_snoc [of "xs @ ys" y] by simp
  then show ?case using snoc by (simp add: readNat_snoc algebra_simps)
qed

lemma readNat_zeros: "readNat (replicate z (CHR ''0'')) = 0"
proof (induction z)
  case 0
  show ?case by (simp add: readNat_def)
next
  case (Suc z)
  have "replicate (Suc z) (CHR ''0'') = replicate z (CHR ''0'') @ [CHR ''0'']"
    by (simp add: replicate_append_same)
  then show ?case
    using Suc readNat_snoc [of "replicate z (CHR ''0'')" "CHR ''0''"]
    by (simp add: digitValue_def)
qed

lemma hd_showNat_digit: "isDigit (hd (showNat n))"
  using showNat_digits [of n] showNat_nonempty [of n] by (cases "showNat n") simp_all

lemma last_showNat_digit: "isDigit (last (showNat n))"
  by (simp add: last_showNat digitChar_props)

lemma unescapeQuotes_other: "c \<noteq> sq \<Longrightarrow> unescapeQuotes (c # r) = c # unescapeQuotes r"
  by (cases r) simp_all

lemma unescapeQuotes_escape:
  "unescapeQuotes (concat (map (\<lambda>c. if c = sq then [sq, sq] else [c]) s)) = s"
  by (induction s) (simp_all add: unescapeQuotes_other)

lemma not_NULL_hd:
  assumes "s \<noteq> []" and "toUpperChar (hd s) \<noteq> CHR ''N''"
  shows "toUpperCase s \<noteq> ''NULL''"
  using assms by (cases s) (auto simp: toUpperCase_def)

lemma sign_or_digit_props:
  assumes "c = CHR ''-'' \<or> isDigit c"
  shows "\<not> isSpace c" and "toUpperChar c \<noteq> CHR ''N''" and "c \<noteq> sq" and "c \<noteq> dq"
proof -
  have m: "\<not> isSpace (CHR ''-'')" "toUpperChar (CHR ''-'') \<noteq> CHR ''N''" "CHR ''-'' \<noteq> sq"
    "CHR ''-'' \<noteq> dq"
    by (simp_all add: isSpace_def toUpperChar_def asciiLower_def asciiUpper_def sq_def dq_def)
  show "\<not> isSpace c" using assms m(1) isDigit_props(1) by auto
  show "toUpperChar c \<noteq> CHR ''N''" using assms m(2) isDigit_props(6) by auto
  show "c \<noteq> sq" using assms m(3) isDigit_props(2) by auto
  show "c \<noteq> dq" using assms m(4) isDigit_props(3) by auto
qed

lemma parse_string: "parseDefaultValue (normalizeDefault (JStr s)) = JStr s"
proof -
  let ?e = "concat (map (\<lambda>c. if c = sq then [sq, sq] else [c]) s)"
  let ?t = "sq # ?e @ [sq]"
  have sp: "\<not> isSpace sq" by (simp add: isSpace_def sq_def)
  have t: "trim ?t = ?t" by (rule trim_id) (simp_all add: sp)
  have "toUpperChar sq \<noteq> CHR ''N''"
    by (simp add: sq_def toUpperChar_def asciiLower_def asciiUpper_def)
  then have n: "toUpperCase ?t \<noteq> ''NULL''" by (intro not_NULL_hd) simp_all
  have q: "startsWith ?t [sq]" "endsWith ?t [sq]" by (simp_all add: endsWith_def)
  have b: "butlast (tl ?t) = ?e" by (simp add: butlast_append)
  have "parseDefaultValue ?t = JStr (unescapeQuotes ?e)"
    unfolding parseDefaultValue_def Let_def t using n q b
    by (simp del: startsWith.simps)
  then show ?thesis by (simp add: normalizeDefault_def unescapeQuotes_escape)
qed

lemma parse_null: "parseDefaultValue (normalizeDefault JNull) = JNull"
  by (simp add: normalizeDefault_def parseDefaultValue_def trim_def isSpace_def toUpperCase_def
      toUpperChar_def asciiLower_def asciiUpper_def)

lemma parse_int:
  assumes "\<bar>n\<bar> < 10 ^ 21"
  shows "parseDefaultValue (normalizeDefault (JInt n)) = JInt n"
proof -
  define ds where "ds = showNat (nat \<bar>n\<bar>)"
  define t where "t = (if n < 0 then ''-'' else []) @ ds"
  have nt: "normalizeDefault (JInt n) = t"
    using assms by (simp add: normalizeDefault_def numberToString_def t_def ds_def)
  have ne: "ds \<noteq> []" and dg: "list_all isDigit ds" and hd: "isDigit (hd ds)"
    and la: "isDigit (last ds)"
    by (simp_all add: ds_def showNat_nonempty showNat_digits hd_showNat_digit last_showNat_digit)
  have hdt: "hd t = CHR ''-'' \<or> isDigit (hd t)" using hd ne by (simp add: t_def)
  have lat: "last t = last ds" using ne by (simp add: t_def)
  have tne: "t \<noteq> []" using ne by (simp add: t_def)
  have hsp: "\<not> isSpace (hd t)"
    using hdt by (rule sign_or_digit_props(1))
  have tr: "trim t = t"
    by (rule trim_id) (use tne hsp lat la isDigit_props(1) in auto)
  have "toUpperChar (hd t) \<noteq> CHR ''N''"
    using hdt by (rule sign_or_digit_props(2))
  then have nn: "toUpperCase t \<noteq> ''NULL''" using tne by (intro not_NULL_hd)
  have nq: "\<not> startsWith t [sq]" "\<not> startsWith t [dq]"
    using sign_or_digit_props(3,4) [OF hdt] tne by (cases t; simp)+
  have un: "unsigned t = ds"
    using hd ne isDigit_props(4) by (cases ds) (auto simp: t_def unsigned_def)
  have neg: "isNegative t \<longleftrightarrow> n < 0"
    using hd ne isDigit_props(4) by (cases ds) (auto simp: t_def isNegative_def)
  have it: "isIntegerText t" using un ne dg by (simp add: isIntegerText_def)
  have "parseInt t = JInt n"
    using un neg by (simp add: parseInt_def signed_def ds_def readNat_showNat)
  then have "parseDefaultValue t = JInt n"
    unfolding parseDefaultValue_def Let_def tr using nn nq it by simp
  then show ?thesis by (simp add: nt)
qed

lemma last_showNat_nonzero:
  assumes "m mod 10 \<noteq> (0::int)"
  shows "last (showNat (nat \<bar>m\<bar>)) \<noteq> CHR ''0''"
proof -
  have "\<not> 10 dvd m" using assms by (simp add: dvd_eq_mod_eq_0)
  then have "\<not> (10::nat) dvd nat \<bar>m\<bar>" by (simp add: dvd_nat_abs_iff)
  then have "nat \<bar>m\<bar> mod 10 \<noteq> 0" by (simp add: dvd_eq_mod_eq_0)
  then show ?thesis by (simp add: last_showNat digitChar_props)
qed

lemma stripTrailingZeros_id:
  assumes "fp \<noteq> []" and "last fp \<noteq> CHR ''0''"
  shows "stripTrailingZeros fp = fp"
proof -
  have "dropWhile (\<lambda>c. c = CHR ''0'') (rev fp) = rev fp"
    using assms by (cases "rev fp") (auto simp: last_rev [symmetric] hd_rev)
  then show ?thesis by (simp add: stripTrailingZeros_def)
qed

lemma parse_decimal_text:
  assumes ip: "ip \<noteq> []" "list_all isDigit ip"
    and fp: "fp \<noteq> []" "list_all isDigit fp" "last fp \<noteq> CHR ''0''"
    and sg: "sg = [] \<or> sg = ''-''"
  shows "parseDefaultValue (sg @ ip @ CHR ''.'' # fp) =
     JFloat (if sg = [] then int (readNat (ip @ fp)) else - int (readNat (ip @ fp))) (length fp)"
proof -
  define b where "b = ip @ CHR ''.'' # fp"
  define t where "t = sg @ b"
  have hdb: "isDigit (hd b)" using ip by (cases ip) (simp_all add: b_def)
  have bne: "b \<noteq> []" by (simp add: b_def)
  have lab: "last b = last fp" using fp(1) by (simp add: b_def)
  have laf: "isDigit (last fp)"
    using fp(1,2) by (metis last_in_set list_all_iff)
  have tne: "t \<noteq> []" using bne by (simp add: t_def)
  have hdt: "hd t = CHR ''-'' \<or> isDigit (hd t)" using hdb bne sg by (auto simp: t_def)
  have lat: "last t = last fp" using bne lab by (simp add: t_def)
  have hsp: "\<not> isSpace (hd t)"
    using hdt by (rule sign_or_digit_props(1))
  have tr: "trim t = t"
    by (rule trim_id) (use tne hsp lat laf isDigit_props(1) in auto)
  have "toUpperChar (hd t) \<noteq> CHR ''N''"
    using hdt by (rule sign_or_digit_props(2))
  then have nn: "toUpperCase t \<noteq> ''NULL''" using tne by (intro not_NULL_hd)
  have nq: "\<not> startsWith t [sq]" "\<not> startsWith t [dq]"
    using sign_or_digit_props(3,4) [OF hdt] tne by (cases t; simp)+
  have un: "unsigned t = b"
    using hdb bne isDigit_props(4) sg by (cases b) (auto simp: t_def unsigned_def)
  have neg: "isNegative t \<longleftrightarrow> sg \<noteq> []"
    using hdb bne isDigit_props(4) sg by (cases b) (auto simp: t_def isNegative_def)
  have nd: "\<not> isDigit (CHR ''.'')" by (simp add: isDigit_def)
  have tw: "takeWhile isDigit b = ip" "dropWhile isDigit b = CHR ''.'' # fp"
    using ip(2) nd by (simp_all add: b_def takeWhile_append dropWhile_append list_all_iff)
  have nit: "\<not> isIntegerText t"
    using un nd by (simp add: isIntegerText_def b_def)
  have ft: "isFloatText t"
    using un tw ip fp by (simp add: isFloatText_def)
  have st: "stripTrailingZeros fp = fp" using fp by (intro stripTrailingZeros_id)
  have "parseFloat t = JFloat (signed t (readNat (ip @ fp))) (length fp)"
    using un tw st fp(1) by (simp add: parseFloat_def Let_def)
  then have "parseDefaultValue t =
      JFloat (if sg = [] then int (readNat (ip @ fp)) else - int (readNat (ip @ fp))) (length fp)"
    unfolding parseDefaultValue_def Let_def tr using nn nq nit ft neg
    by (simp add: signed_def)
  then show ?thesis by (simp add: t_def b_def)
qed

lemma parse_float:
  assumes d: "0 < d" and m: "m mod 10 \<noteq> 0"
    and lo: "- 6 < int (length (showNat (nat \<bar>m\<bar>))) - int d"
    and hi: "int (length (showNat (nat \<bar>m\<bar>))) - int d \<le> 21"
  shows "parseDefaultValue (normalizeDefault (JFloat m d)) = JFloat m d"
proof -
  define ds where "ds = showNat (nat \<bar>m\<bar>)"
  define k where "k = length ds"
  define nn where "nn = int k - int d"
  define sg where "sg = (if m < 0 then ''-'' else [])"
  have ne: "ds \<noteq> []" and dg: "list_all isDigit ds"
    by (simp_all add: ds_def showNat_nonempty showNat_digits)
  have k1: "0 < k" using ne by (simp add: k_def)
  have la: "last ds \<noteq> CHR ''0''" unfolding ds_def by (rule last_showNat_nonzero) (rule m)
  have rd: "readNat ds = nat \<bar>m\<bar>" by (simp add: ds_def readNat_showNat)
  have sg: "sg = [] \<or> sg = ''-''" by (simp add: sg_def)
  have val: "(if sg = [] then int (nat \<bar>m\<bar>) else - int (nat \<bar>m\<bar>)) = m"
    by (simp add: sg_def)
  have nlt: "\<not> int k \<le> nn" using d by (simp add: nn_def)
  have bounds: "- 6 < nn" "nn \<le> 21" using lo hi by (simp_all add: nn_def k_def ds_def)
  have nd: "normalizeDefault (JFloat m d) = sg @ decimalToString ds nn"
    by (simp add: normalizeDefault_def numberToString_def ds_def nn_def k_def sg_def)
  show ?thesis
  proof (cases "0 < nn")
    case True
    define ip where "ip = take (nat nn) ds"
    define fp where "fp = drop (nat nn) ds"
    have "decimalToString ds nn = ip @ CHR ''.'' # fp"
      using True nlt bounds by (simp add: decimalToString_def Let_def k_def ip_def fp_def)
    then have rendering: "normalizeDefault (JFloat m d) = sg @ ip @ CHR ''.'' # fp"
      using nd by simp
    have lt: "nat nn < k" using d True by (simp add: nn_def)
    have ipn: "ip \<noteq> []" using True ne by (simp add: ip_def)
    have ipd: "list_all isDigit ip"
      using dg by (auto simp: ip_def list_all_iff dest: in_set_takeD)
    have fpn: "fp \<noteq> []" using lt by (simp add: fp_def k_def)
    have fpd: "list_all isDigit fp"
      using dg by (auto simp: fp_def list_all_iff dest: in_set_dropD)
    have fpl: "last fp \<noteq> CHR ''0''" using la lt by (simp add: fp_def k_def)
    have len: "length fp = d" using True by (simp add: fp_def nn_def k_def)
    have "ip @ fp = ds" by (simp add: ip_def fp_def)
    then have "parseDefaultValue (sg @ ip @ CHR ''.'' # fp) =
        JFloat (if sg = [] then int (nat \<bar>m\<bar>) else - int (nat \<bar>m\<bar>)) d"
      using parse_decimal_text [OF ipn ipd fpn fpd fpl sg] rd len by simp
    then show ?thesis using rendering val by simp
  next
    case False
    define fp where "fp = replicate (nat (- nn)) (CHR ''0'') @ ds"
    have "decimalToString ds nn = ''0'' @ CHR ''.'' # fp"
      using False nlt bounds by (simp add: decimalToString_def Let_def k_def fp_def)
    then have rendering: "normalizeDefault (JFloat m d) = sg @ ''0'' @ CHR ''.'' # fp"
      using nd by simp
    have z: "list_all isDigit (replicate (nat (- nn)) (CHR ''0''))"
      by (simp add: list_all_iff isDigit_def)
    have fpn: "fp \<noteq> []" using ne by (simp add: fp_def)
    have fpd: "list_all isDigit fp" using z dg by (simp add: fp_def)
    have fpl: "last fp \<noteq> CHR ''0''" using la ne by (simp add: fp_def)
    have len: "length fp = d" using False by (simp add: fp_def nn_def k_def)
    have "''0'' @ fp = replicate (Suc (nat (- nn))) (CHR ''0'') @ ds"
      by (simp add: fp_def)
    then have "readNat (''0'' @ fp) = readNat ds"
      using readNat_append [of "replicate (Suc (nat (- nn))) (CHR ''0'')" ds]
        readNat_zeros [of "Suc (nat (- nn))"] by simp
    moreover have "list_all isDigit ''0''" by (simp add: isDigit_def)
    ultimately have "parseDefaultValue (sg @ ''0'' @ CHR ''.'' # fp) =
        JFloat (if sg = [] then int (nat \<bar>m\<bar>) else - int (nat \<bar>m\<bar>)) d"
      using parse_decimal_text [of "''0''" fp sg, OF _ _ fpn fpd fpl sg] rd len by simp
    then show ?thesis using rendering val by simp
  qed
qed

lemma isWord_props:
  assumes "isWord c"
  shows "c \<noteq> sq" and "c \<noteq> dq" and "c \<noteq> CHR ''-''" and "\<not> isSpace c" and "c \<noteq> CHR ''(''"
  using assms
  by (auto simp: isWord_def asciiUpper_def asciiLower_def sq_def dq_def isSpace_def)

lemma parse_function_call:
  assumes "isFunctionCall (trim t)"
  shows "parseDefaultValue t = JStr (trim t)"
proof -
  define u where "u = trim t"
  from assms have tw: "takeWhile isWord u \<noteq> []"
    and dw: "\<exists>cs. dropWhile isWord u = CHR ''('' # cs"
    by (auto simp: isFunctionCall_def u_def split: list.splits)
  from tw obtain c cs where u: "u = c # cs" and c: "isWord c"
    by (cases u) (auto split: if_splits)
  have par: "CHR ''('' \<in> set u"
    using dw by (metis list.set_intros(1) set_dropWhileD)
  have "toUpperChar (CHR ''('') = CHR ''(''"
    by (simp add: toUpperChar_def asciiLower_def asciiUpper_def)
  then have "CHR ''('' \<in> set (toUpperCase u)"
    using par by (force simp: toUpperCase_def)
  then have nn: "toUpperCase u \<noteq> ''NULL''" by auto
  have nq: "\<not> startsWith u [sq]" "\<not> startsWith u [dq]"
    using u c isWord_props(1,2) by auto
  have un: "unsigned u = u" using u c isWord_props(3) by (auto simp: unsigned_def)
  have np: "\<not> isDigit (CHR ''('')" by (simp add: isDigit_def)
  have nit: "\<not> isIntegerText u"
    using un par np by (auto simp: isIntegerText_def list_all_iff)
  have nft: "\<not> isFloatText u"
  proof
    assume "isFloatText u"
    then obtain fp where d: "dropWhile isDigit u = CHR ''.'' # fp" and f: "list_all isDigit fp"
      by (auto simp: isFloatText_def un split: list.splits)
    have "CHR ''('' \<in> set (takeWhile isDigit u @ dropWhile isDigit u)"
      using par by simp
    then have "CHR ''('' \<in> set (takeWhile isDigit u) \<or> CHR ''('' \<in> set (dropWhile isDigit u)"
      by (simp only: set_append Un_iff)
    then have "CHR ''('' \<in> set (takeWhile isDigit u) \<or> CHR ''('' \<in> set fp"
      using d by auto
    then show False
      using np f by (auto simp: list_all_iff dest: set_takeWhileD)
  qed
  have nb: "u \<noteq> ''0''" "u \<noteq> ''1''" using par by auto
  have "parseDefaultValue t = JStr u"
    unfolding parseDefaultValue_def Let_def u_def [symmetric]
    using nn nq nit nft nb by (simp del: startsWith.simps)
  then show ?thesis by (simp add: u_def)
qed

text \<open>
  For the other kinds of value the code does what the claim says. \<open>parseDefaultValue\<close>
  applied to the text of \<open>normalizeDefault\<close> gives the value back for \<open>null\<close>, for every
  string (also one with single quotes), for every integer below \<open>10^21\<close> in magnitude and for
  every other number that \<open>String\<close> prints in plain decimal notation, that is with its decimal
  point after at most 21 and before fewer than 6 zeros ahead of its digits. A text that,
  trimmed, starts like a function call comes back as that text.
\<close>

lemma default_round_trip:
  "parseDefaultValue (normalizeDefault JNull) = JNull \<and>
   parseDefaultValue (normalizeDefault (JStr s)) = JStr s \<and>
   (\<bar>n\<bar> < 10 ^ 21 \<longrightarrow> parseDefaultValue (normalizeDefault (JInt n)) = JInt n) \<and>
   (0 < d \<and> m mod 10 \<noteq> 0 \<and> - 6 < int (length (showNat (nat \<bar>m\<bar>))) - int d \<and>
      int (length (showNat (nat \<bar>m\<bar>))) - int d \<le> 21
      \<longrightarrow> parseDefaultValue (normalizeDefault (JFloat m d)) = JFloat m d) \<and>
   (isFunctionCall (trim t) \<longrightarrow> parseDefaultValue t = JStr (trim t))"
  using parse_null parse_string parse_int parse_float parse_function_call by blast

lemma default_round_trip_examples:
  "parseDefaultValue (normalizeDefault (JStr ''it's'')) = JStr ''it's'' \<and>
   parseDefaultValue (normalizeDefault (JInt (- 10))) = JInt (- 10) \<and>
   parseDefaultValue (normalizeDefault (JFloat (- 314) 2)) = JFloat (- 314) 2 \<and>
   parseDefaultValue ''datetime('now')'' = JStr ''datetime('now')''"
proof -
  have h1: "\<bar>- 10 :: int\<bar> < 10 ^ 21" by simp
  have s: "showNat 314 = ''314''"
    by (simp add: showNat.simps [of 314] showNat.simps [of 31] showNat.simps [of 3] digitChar_def)
  have h2: "0 < (2::nat) \<and> (- 314 :: int) mod 10 \<noteq> 0 \<and>
      - 6 < int (length (showNat (nat \<bar>- 314 :: int\<bar>))) - int 2 \<and>
      int (length (showNat (nat \<bar>- 314 :: int\<bar>))) - int 2 \<le> 21"
    by (simp add: s)
  have tr: "trim ''datetime('now')'' = ''datetime('now')''"
    by (simp add: trim_def isSpace_def)
  have h3: "isFunctionCall (trim ''datetime('now')'')"
    unfolding tr by (simp add: isFunctionCall_def isWord_def asciiUpper_def asciiLower_def)
  note c = default_round_trip [of "''it's''" "- 10" 2 "- 314" "''datetime('now')''"]
  have 1: "parseDefaultValue (normalizeDefault (JStr ''it's'')) = JStr ''it's''"
    using c by blast
  have 2: "parseDefaultValue (normalizeDefault (JInt (- 10))) = JInt (- 10)"
    using c h1 by blast
  have 3: "parseDefaultValue (normalizeDefault (JFloat (- 314) 2)) = JFloat (- 314) 2"
    using c h2 by blast
  have "parseDefaultValue ''datetime('now')'' = JStr (trim ''datetime('now')'')"
    using c h3 by blast
  then have 4: "parseDefaultValue ''datetime('now')'' = JStr ''datetime('now')''"
    by (simp only: tr)
  show ?thesis using 1 2 3 4 by blast
qed

text \<open>
  The branch of \<open>parseDefaultValue\<close> that reads \<open>0\<close> and \<open>1\<close> as booleans comes after the test
  for an integer, which both texts pass: it is never taken, and no text at all is read as a
  boolean.
\<close>

lemma parseDefaultValue_not_boolean: "parseDefaultValue v \<noteq> JBool b"
proof -
  have "isIntegerText ''0''" and "isIntegerText ''1''"
    by (simp_all add: isIntegerText_def unsigned_def isDigit_def)
  then show ?thesis
    unfolding parseDefaultValue_def Let_def
    by (auto simp: parseInt_def parseFloat_def Let_def simp del: startsWith.simps)
qed

text \<open>
  C2. The booleans do not come back: \<open>normalizeDefault\<close> writes \<open>true\<close> as \<open>1\<close> and \<open>false\<close> as
  \<open>0\<close>, and \<open>parseDefaultValue\<close> reads these texts as the numbers one and zero, as it reads
  no text as a boolean.
\<close>

theorem parseDefaultValue_boolean_default:
  "normalizeDefault (JBool True) = ''1'' \<and>
   parseDefaultValue (normalizeDefault (JBool True)) = JInt 1 \<and>
   normalizeDefault (JBool False) = ''0'' \<and>
   parseDefaultValue (normalizeDefault (JBool False)) = JInt 0 \<and>
   parseDefaultValue v \<noteq> JBool b"
proof -
  have "normalizeDefault (JBool True) = ''1'' \<and>
      parseDefaultValue (normalizeDefault (JBool True)) = JInt 1" by code_simp
  moreover have "normalizeDefault (JBool False) = ''0'' \<and>
      parseDefaultValue (normalizeDefault (JBool False)) = JInt 0" by code_simp
  ultimately show ?thesis using parseDefaultValue_not_boolean by blast
qed

text \<open>
  Numbers that \<open>String\<close> prints in exponent notation do not come back: the text of
  \<open>0.0000001\<close> is read as a string.
\<close>

lemma default_exponent_notation:
  "normalizeDefault (JFloat 1 7) = ''1e-7'' \<and>
   parseDefaultValue (normalizeDefault (JFloat 1 7)) = JStr ''1e-7''"
  by code_simp

section \<open>The primary key in CREATE TABLE\<close>

text \<open>
  C9. A table whose only primary-key column is generated with the strategy \<open>uuid\<close>: the
  generated text has no \<open>PRIMARY KEY\<close> at all, where the claim has \<open>TEXT PRIMARY KEY\<close>.
\<close>

theorem buildCreateTableSql_uuid_primary_key:
  "buildCreateTableSql \<lparr>tableName = ''sessions'', columns =
      [\<lparr>name = ''id'', type = ''varchar'', isPrimary = True, isUnique = False, isNullable = False,
        isGenerated = True, generationStrategy = Some ''uuid'', defaultValue = JUndefined\<rparr>]\<rparr>
     = ''CREATE TABLE IF NOT EXISTS \"sessions\" (\"id\" TEXT)'' \<and>
   \<not> str_includes (buildCreateTableSql \<lparr>tableName = ''sessions'', columns =
      [\<lparr>name = ''id'', type = ''varchar'', isPrimary = True, isUnique = False, isNullable = False,
        isGenerated = True, generationStrategy = Some ''uuid'', defaultValue = JUndefined\<rparr>]\<rparr>)
      ''PRIMARY KEY''"
  by code_simp

text \<open>
  The composite path lists such a column in the table-level clause all the same.
\<close>

lemma buildCreateTableSql_composite_uuid:
  "buildCreateTableSql \<lparr>tableName = ''m'', columns =
      [\<lparr>name = ''a'', type = ''int'', isPrimary = True, isUnique = False, isNullable = False,
        isGenerated = False, generationStrategy = None, defaultValue = JUndefined\<rparr>,
       \<lparr>name = ''b'', type = ''varchar'', isPrimary = True, isUnique = False, isNullable = False,
        isGenerated = True, generationStrategy = Some ''uuid'', defaultValue = JUndefined\<rparr>]\<rparr>
     = ''CREATE TABLE IF NOT EXISTS \"m\" (\"a\" INTEGER, \"b\" TEXT, PRIMARY KEY (\"a\", \"b\"))''"
  by code_simp

section \<open>Reading back the generated CREATE TABLE\<close>




























































end
